theory Spec2Isabelle
  imports Main "HOL-Library.Sublist"
begin

section \<open>Python values used by foxysafe\<close>

text \<open>
  Exceptions are values. \<open>KeyboardInterrupt\<close> and \<open>SystemExit\<close> derive from
  \<open>BaseException\<close> only, so a handler \<^verbatim>\<open>except Exception\<close> does not catch them;
  every other constructor is a subclass of \<open>Exception\<close>.
\<close>

datatype exn =
    KeyboardInterrupt
  | SystemExit int
  | GitlabAuthenticationError
  | GitlabGetError
  | GitlabListError
  | UnboundLocalError
  | TypeError
  | ValueError
  | BeartypeCallHintParamViolation
  | GitCommandError
  | OSError
  | KeyError

fun is_Exception :: "exn \<Rightarrow> bool" where
  "is_Exception KeyboardInterrupt = False"
| "is_Exception (SystemExit c) = False"
| "is_Exception e = True"

text \<open>The outcome of a call into a library or the operating system.\<close>

datatype 'a res = Ret 'a | Raise exn

subsection \<open>Strings\<close>

text \<open>\<^verbatim>\<open>str(n)\<close> for an integer, in decimal.\<close>

function str_nat :: "nat \<Rightarrow> string" where
  "str_nat n =
     (if n < 10 then [''0123456789'' ! n]
      else str_nat (n div 10) @ [''0123456789'' ! (n mod 10)])"
  by pat_completeness auto
termination
  by (relation "measure id") auto

definition str_int :: "int \<Rightarrow> string" where
  "str_int i = (if i < 0 then ''-'' @ str_nat (nat (- i)) else str_nat (nat i))"

text \<open>
  \<^verbatim>\<open>s.replace(old, new)\<close>: every occurrence of \<open>old\<close>, left to right, without
  overlap. With an empty \<open>old\<close> Python puts \<open>new\<close> before every character and at
  the end.
\<close>

function replace_from :: "string \<Rightarrow> string \<Rightarrow> string \<Rightarrow> string" where
  "replace_from old new [] = []"
| "replace_from old new (c # cs) =
     (if old \<noteq> [] \<and> prefix old (c # cs)
      then new @ replace_from old new (drop (length old) (c # cs))
      else c # replace_from old new cs)"
  by pat_completeness auto
termination
  by (relation "measure (\<lambda>(old, new, s). length s)") auto

definition py_replace :: "string \<Rightarrow> string \<Rightarrow> string \<Rightarrow> string" where
  "py_replace s old new =
     (if old = [] then new @ concat (map (\<lambda>c. c # new) s) else replace_from old new s)"

text \<open>\<^verbatim>\<open>sub in s\<close> for strings: \<open>sub\<close> occurs in \<open>s\<close> as a contiguous block.\<close>

primrec py_in :: "string \<Rightarrow> string \<Rightarrow> bool" where
  "py_in sub [] = (sub = [])"
| "py_in sub (c # cs) = (prefix sub (c # cs) \<or> py_in sub cs)"

text \<open>\<^verbatim>\<open>s.split(c)\<close> for a separator of one character.\<close>

primrec py_split :: "string \<Rightarrow> char \<Rightarrow> string list" where
  "py_split [] sep = [[]]"
| "py_split (c # cs) sep =
     (if c = sep then [] # py_split cs sep
      else (case py_split cs sep of [] \<Rightarrow> [[c]] | w # ws \<Rightarrow> (c # w) # ws))"

text \<open>
  \<^verbatim>\<open>s.strip()\<close>: the ASCII characters Python counts as whitespace are the codes
  9 to 13 and 28 to 32.
\<close>

definition py_isspace :: "char \<Rightarrow> bool" where
  "py_isspace c = (let n = (of_char c :: nat) in (9 \<le> n \<and> n \<le> 13) \<or> (28 \<le> n \<and> n \<le> 32))"

definition py_strip :: "string \<Rightarrow> string" where
  "py_strip s = rev (dropWhile py_isspace (rev (dropWhile py_isspace s)))"

subsection \<open>Dictionaries\<close>

text \<open>
  A Python \<open>dict\<close> keeps its keys in insertion order, and storing under a key that is
  already there replaces the value where it stands. It is modelled as an association
  list; \<open>dict_update d k v\<close> is \<^verbatim>\<open>d.update({k: v})\<close> and \<^verbatim>\<open>d[k] = v\<close>.
\<close>

type_synonym ('k, 'v) dict = "('k \<times> 'v) list"

fun dict_update :: "('k, 'v) dict \<Rightarrow> 'k \<Rightarrow> 'v \<Rightarrow> ('k, 'v) dict" where
  "dict_update [] k v = [(k, v)]"
| "dict_update ((k', v') # d) k v =
     (if k' = k then (k, v) # d else (k', v') # dict_update d k v)"

definition dict_keys :: "('k, 'v) dict \<Rightarrow> 'k list" where
  "dict_keys d = map fst d"

definition dict_values :: "('k, 'v) dict \<Rightarrow> 'v list" where
  "dict_values d = map snd d"

section \<open>git/clone.py\<close>

subsection \<open>The forge objects a clone reads\<close>

record project =
  p_id :: int
  p_name :: string
  p_web_url :: string
  p_path_with_namespace :: string
  p_has_wikis :: bool  \<comment> \<open>\<^verbatim>\<open>hasattr(project, "wikis")\<close>\<close>

text \<open>
  The owner of a wiki is a group or a project; \<open>clone_wiki\<close> reads the same four
  attributes of either.
\<close>

record wiki_owner =
  o_id :: int
  o_name :: string
  o_web_url :: string
  o_path_with_namespace :: string

record snippet =
  s_id :: int
  s_title :: string
  s_web_url :: string
  s_description :: string

subsection \<open>What git and the file system answer\<close>

text \<open>
  Every call that leaves the program is an oracle of the world: it returns, or raises.
  \<open>git_env\<close> is the behaviour of GitPython on one clone: the clone itself, the
  \<open>submodules\<close> property (the submodules' URLs), the submodule update, the output of
  \<^verbatim>\<open>git branch --all\<close>, \<^verbatim>\<open>git branch --track local remote\<close>, and the final fetch and
  pull.
\<close>

record git_env =
  e_clone_from :: "unit res"
  e_submodules :: "string list res"
  e_submodule_update :: "unit res"
  e_branch_all :: "string res"
  e_branch_track :: "string \<Rightarrow> string \<Rightarrow> unit res"
  e_fetch_all :: "unit res"
  e_pull_all :: "unit res"

text \<open>
  The world of a run: \<^verbatim>\<open>os.cpu_count()\<close> (which may be \<open>None\<close>), git on a URL and a
  target path, writing a JSON file at a path, and
  \<^verbatim>\<open>Path(backup_dir / rel).resolve().as_posix()\<close>.
\<close>

record world =
  w_cpu_count :: "int option"
  w_git :: "string \<Rightarrow> string \<Rightarrow> git_env"
  w_write_json :: "string \<Rightarrow> unit res"
  w_resolve :: "string \<Rightarrow> string \<Rightarrow> string"

subsection \<open>The result record of one clone\<close>

text \<open>
  The result dictionary of \<open>clone_project\<close> and \<open>clone_wiki\<close>. The keys
  \<^verbatim>\<open>project_name\<close>/\<^verbatim>\<open>wiki_name\<close>, \<^verbatim>\<open>..._url\<close>, \<^verbatim>\<open>..._id\<close> and \<^verbatim>\<open>..._path\<close> are \<open>r_name\<close>,
  \<open>r_url\<close>, \<open>r_id\<close> and \<open>r_path\<close>. The key \<^verbatim>\<open>is_submodules_cloned\<close> is not in the
  initial dictionary: the code adds it after a submodule update that returned
  (\<open>None\<close> is the absent key).
\<close>

record clone_result =
  r_name :: string
  r_url :: string
  r_id :: int
  r_path :: string
  is_cloned :: bool
  submodules :: "string list"
  is_submodules_updated :: bool
  branches :: "string list"
  is_branches_updated :: bool
  success :: bool
  is_submodules_cloned :: "bool option"

definition initial_result :: clone_result where
  "initial_result =
     \<lparr>r_name = '''', r_url = '''', r_id = 0, r_path = '''', is_cloned = False,
      submodules = [], is_submodules_updated = False, branches = [],
      is_branches_updated = False, success = False, is_submodules_cloned = None\<rparr>"

text \<open>The result dictionary of \<open>clone_snippet\<close> has six keys.\<close>

record snippet_result =
  snippet_title :: string
  snippet_url :: string
  snippet_id :: int
  snippet_path :: string
  sn_is_cloned :: bool
  sn_success :: bool

definition initial_snippet_result :: snippet_result where
  "initial_snippet_result =
     \<lparr>snippet_title = '''', snippet_url = '''', snippet_id = 0, snippet_path = '''',
      sn_is_cloned = False, sn_success = False\<rparr>"

subsection \<open>One clone attempt\<close>

text \<open>
  The body of the outer \<^verbatim>\<open>try\<close> either runs to its end with the dictionary \<open>r\<close>
  (\<open>Inr r\<close>), or an exception \<open>e\<close> leaves it with the dictionary as it was then
  (\<open>Inl (e, r)\<close>).

  Lines 45 to 54: the clone. \<^verbatim>\<open>except Exception\<close> logs and goes on with
  \<open>repository = None\<close>; the boolean says whether there is a repository.
\<close>

definition try_clone :: "git_env \<Rightarrow> 'r \<Rightarrow> ('r \<Rightarrow> 'r) \<Rightarrow> (exn \<times> 'r) + (bool \<times> 'r)" where
  "try_clone g r set_cloned =
     (case e_clone_from g of
        Ret u \<Rightarrow> Inr (True, set_cloned r)
      | Raise e \<Rightarrow> if is_Exception e then Inr (False, r) else Inl (e, r))"

text \<open>
  Lines 57 to 65: the submodules. The property \<open>repository.submodules\<close> is read by
  the \<^verbatim>\<open>if\<close>, outside the inner \<^verbatim>\<open>try\<close>; the second read, inside it, gives the
  same list. After an update that returned, the code stores \<open>True\<close> under the key
  \<^verbatim>\<open>is_submodules_cloned\<close>.
\<close>

definition update_submodules :: "git_env \<Rightarrow> clone_result \<Rightarrow> (exn \<times> clone_result) + clone_result" where
  "update_submodules g r =
     (case e_submodules g of
        Raise e \<Rightarrow> Inl (e, r)
      | Ret subs \<Rightarrow>
          if subs = [] then Inr r
          else
            (let r1 = r\<lparr>submodules := subs\<rparr> in
             case e_submodule_update g of
               Ret u \<Rightarrow> Inr (r1\<lparr>is_submodules_cloned := Some True\<rparr>)
             | Raise e \<Rightarrow> if is_Exception e then Inr r1 else Inl (e, r1)))"

text \<open>
  Lines 72 to 79: one local tracking branch per remote branch. A failure is logged
  and skipped; an interrupt is not an \<open>Exception\<close> and leaves the loop.
\<close>

fun track_branches :: "git_env \<Rightarrow> string list \<Rightarrow> exn option" where
  "track_branches g [] = None"
| "track_branches g (remote_branch # rest) =
     (let local_branch = py_strip (py_replace remote_branch ''origin/'' '''');
          remote_branch = py_strip remote_branch
      in case e_branch_track g local_branch remote_branch of
           Ret u \<Rightarrow> track_branches g rest
         | Raise e \<Rightarrow> if is_Exception e then track_branches g rest else Some e)"

text \<open>Lines 81 to 88: fetch and pull every branch, in one \<^verbatim>\<open>try\<close>.\<close>

definition pull_all :: "git_env \<Rightarrow> clone_result \<Rightarrow> (exn \<times> clone_result) + clone_result" where
  "pull_all g r =
     (case e_fetch_all g of
        Raise e \<Rightarrow> if is_Exception e then Inr r else Inl (e, r)
      | Ret u \<Rightarrow>
          (case e_pull_all g of
             Raise e \<Rightarrow> if is_Exception e then Inr r else Inl (e, r)
           | Ret u \<Rightarrow> Inr (r\<lparr>is_branches_updated := True\<rparr>)))"

text \<open>Lines 67 to 92: the branches.\<close>

definition update_branches :: "git_env \<Rightarrow> clone_result \<Rightarrow> (exn \<times> clone_result) + clone_result" where
  "update_branches g r =
     (case e_branch_all g of
        Raise e \<Rightarrow> Inl (e, r)
      | Ret out \<Rightarrow>
          (let remote_branches = drop 2 (py_split (py_replace out ''remotes/'' '''') (CHR 0x0A));
               remote_branches = map py_strip remote_branches;
               r1 = r\<lparr>branches := remote_branches\<rparr>
           in if length remote_branches > 1 then
                (case track_branches g remote_branches of
                   Some e \<Rightarrow> Inl (e, r1)
                 | None \<Rightarrow> pull_all g r1)
              else Inr (r1\<lparr>is_branches_updated := True\<rparr>)))"

text \<open>Lines 97 to 103 (and 194 to 200): the derived flag.\<close>

definition derive_success :: "clone_result \<Rightarrow> clone_result" where
  "derive_success r =
     r\<lparr>success := (is_cloned r \<and> ((submodules r \<noteq> []) = is_submodules_updated r)
                      \<and> is_branches_updated r)\<rparr>"

text \<open>Lines 32 to 103: the body of the outer \<^verbatim>\<open>try\<close> of \<open>clone_project\<close>.\<close>

definition clone_project_body :: "world \<Rightarrow> project \<times> string \<Rightarrow> (exn \<times> clone_result) + clone_result" where
  "clone_project_body w args =
     (case args of (project, target_path) \<Rightarrow>
        let r0 = initial_result\<lparr>r_name := p_name project, r_url := p_web_url project,
                                r_id := p_id project, r_path := target_path\<rparr>;
            g = w_git w (p_web_url project) target_path
        in case try_clone g r0 (\<lambda>r. r\<lparr>is_cloned := True\<rparr>) of
             Inl x \<Rightarrow> Inl x
           | Inr (repository, r1) \<Rightarrow>
               if repository then
                 (case update_submodules g r1 of
                    Inl x \<Rightarrow> Inl x
                  | Inr r2 \<Rightarrow>
                      (case update_branches g r2 of
                         Inl x \<Rightarrow> Inl x
                       | Inr r3 \<Rightarrow>
                           (case w_write_json w
                                   (target_path @ ''/../project_'' @ str_int (p_id project) @ ''.json'') of
                              Raise e \<Rightarrow> Inl (e, r3)
                            | Ret u \<Rightarrow> Inr (derive_success r3))))
               else Inr r1)"

text \<open>
  Lines 105 to 112: both handlers set \<open>success\<close> to \<open>False\<close>, and
  \<^verbatim>\<open>finally: return result\<close> returns the dictionary whatever happened. (An exception
  that neither handler names is dropped by the \<^verbatim>\<open>return\<close> in \<^verbatim>\<open>finally\<close>; \<open>success\<close>
  is still the initial \<open>False\<close> then, since it is assigned last in the body.)
\<close>

definition on_exit :: "(exn \<times> clone_result) + clone_result \<Rightarrow> clone_result" where
  "on_exit x = (case x of Inl (e, r) \<Rightarrow> r\<lparr>success := False\<rparr> | Inr r \<Rightarrow> r)"

definition clone_project :: "world \<Rightarrow> project \<times> string \<Rightarrow> clone_result" where
  "clone_project w args = on_exit (clone_project_body w args)"

text \<open>
  \<open>clone_wiki\<close> is the same code on \<^verbatim>\<open>obj.web_url + ".wiki.git"\<close>, without the
  side-car file.
\<close>

definition clone_wiki_body :: "world \<Rightarrow> wiki_owner \<times> string \<Rightarrow> (exn \<times> clone_result) + clone_result" where
  "clone_wiki_body w args =
     (case args of (obj, target_path) \<Rightarrow>
        let r0 = initial_result\<lparr>r_name := o_name obj @ '' Wiki'',
                                r_url := o_web_url obj @ ''.wiki.git'',
                                r_id := o_id obj, r_path := target_path\<rparr>;
            g = w_git w (r_url r0) target_path
        in case try_clone g r0 (\<lambda>r. r\<lparr>is_cloned := True\<rparr>) of
             Inl x \<Rightarrow> Inl x
           | Inr (repository, r1) \<Rightarrow>
               if repository then
                 (case update_submodules g r1 of
                    Inl x \<Rightarrow> Inl x
                  | Inr r2 \<Rightarrow>
                      (case update_branches g r2 of
                         Inl x \<Rightarrow> Inl x
                       | Inr r3 \<Rightarrow> Inr (derive_success r3)))
               else Inr r1)"

definition clone_wiki :: "world \<Rightarrow> wiki_owner \<times> string \<Rightarrow> clone_result" where
  "clone_wiki w args = on_exit (clone_wiki_body w args)"

text \<open>Lines 226 to 260: \<open>clone_snippet\<close>.\<close>

definition clone_snippet_body :: "world \<Rightarrow> snippet \<times> string \<Rightarrow> (exn \<times> snippet_result) + snippet_result" where
  "clone_snippet_body w args =
     (case args of (snippet, target_path) \<Rightarrow>
        let r0 = initial_snippet_result\<lparr>snippet_title := s_title snippet,
                                        snippet_url := s_web_url snippet,
                                        snippet_id := s_id snippet, snippet_path := target_path\<rparr>;
            g = w_git w (py_replace (s_web_url snippet) ''/-/'' ''/'') target_path
        in case try_clone g r0 (\<lambda>r. r\<lparr>sn_is_cloned := True\<rparr>) of
             Inl x \<Rightarrow> Inl x
           | Inr (repository, r1) \<Rightarrow>
               if repository then
                 (case w_write_json w
                         (target_path @ ''/../snippet_'' @ str_int (s_id snippet) @ ''.json'') of
                    Raise e \<Rightarrow> Inl (e, r1)
                  | Ret u \<Rightarrow> Inr (r1\<lparr>sn_success := sn_is_cloned r1\<rparr>))
               else Inr r1)"

definition clone_snippet :: "world \<Rightarrow> snippet \<times> string \<Rightarrow> snippet_result" where
  "clone_snippet w args =
     (case clone_snippet_body w args of
        Inl (e, r) \<Rightarrow> r\<lparr>sn_success := False\<rparr>
      | Inr r \<Rightarrow> r)"

subsection \<open>The worker pool\<close>

text \<open>
  \<^verbatim>\<open>Pool(processes=min(1, os.cpu_count() - 2))\<close>. \<open>os.cpu_count()\<close> may be \<open>None\<close>, and the
  subtraction raises \<open>TypeError\<close> then; \<open>multiprocessing.Pool\<close> raises \<open>ValueError\<close> for
  a number of processes below one.
\<close>

definition pool_processes :: "int \<Rightarrow> int" where
  "pool_processes cpu_count = min 1 (cpu_count - 2)"

definition Pool :: "int option \<Rightarrow> exn + int" where
  "Pool cpu_count =
     (case cpu_count of
        None \<Rightarrow> Inl TypeError
      | Some c \<Rightarrow> if pool_processes c < 1 then Inl ValueError else Inr (pool_processes c))"

text \<open>
  \<^verbatim>\<open>pool.map(f, args)\<close> waits for every worker and returns the results as a list in
  the order of \<open>args\<close>, whatever the number of processes and the order in which the
  workers finish.
\<close>

definition pool_map :: "int \<Rightarrow> ('a \<Rightarrow> 'b) \<Rightarrow> 'a list \<Rightarrow> 'b list" where
  "pool_map processes f args = map f args"

subsection \<open>The orchestrators\<close>

text \<open>
  Each returns the list it writes to \<^verbatim>\<open>results.json\<close> (\<^verbatim>\<open>json.dump\<close> with
  \<^verbatim>\<open>sort_keys\<close> orders the keys inside each dictionary, not the list), or the
  exception that ended the call before anything was written. Creating the
  \<^verbatim>\<open>snippets\<close> directory and writing \<^verbatim>\<open>results.json\<close> itself are taken to succeed, and
  the log lines are not modelled.
\<close>

definition clone_projects :: "world \<Rightarrow> ('k, project) dict \<Rightarrow> string \<Rightarrow> exn + clone_result list" where
  "clone_projects w projects backup_dir =
     (let mapped_args =
            map (\<lambda>project. (project, w_resolve w backup_dir (p_path_with_namespace project)))
              (dict_values projects)
      in case Pool (w_cpu_count w) of
           Inl e \<Rightarrow> Inl e
         | Inr processes \<Rightarrow> Inr (pool_map processes (clone_project w) mapped_args))"

definition clone_wikis :: "world \<Rightarrow> ('k, wiki_owner) dict \<Rightarrow> string \<Rightarrow> exn + clone_result list" where
  "clone_wikis w obj backup_dir =
     (let mapped_args =
            map (\<lambda>obj. (obj, w_resolve w backup_dir (o_path_with_namespace obj @ ''.wiki'')))
              (dict_values obj)
      in case Pool (w_cpu_count w) of
           Inl e \<Rightarrow> Inl e
         | Inr processes \<Rightarrow> Inr (pool_map processes (clone_wiki w) mapped_args))"

definition clone_snippets :: "world \<Rightarrow> ('k, snippet) dict \<Rightarrow> string \<Rightarrow> exn + snippet_result list" where
  "clone_snippets w snippets backup_dir =
     (let backup_dir = backup_dir @ ''/snippets'';
          mapped_args =
            map (\<lambda>snippet. (snippet, w_resolve w backup_dir (str_int (s_id snippet))))
              (dict_values snippets)
      in case Pool (w_cpu_count w) of
           Inl e \<Rightarrow> Inl e
         | Inr processes \<Rightarrow> Inr (pool_map processes (clone_snippet w) mapped_args))"

section \<open>gitlab/api.py\<close>

subsection \<open>The forge\<close>

record group =
  g_id :: int
  g_name :: string
  g_web_url :: string
  g_path_with_namespace :: string
  g_has_wikis :: bool  \<comment> \<open>\<^verbatim>\<open>hasattr(group, "wikis")\<close>\<close>

record issue =
  i_iid :: int
  i_title :: string
  i_project_id :: int
  i_web_url :: string
  i_description :: "string option"

text \<open>
  The calls of python-gitlab that discovery makes, each returning or raising:
  \<^verbatim>\<open>api.groups.get(gid)\<close>, \<^verbatim>\<open>group.subgroups.list(all=True)\<close> (the code reads only the
  \<open>id\<close> of each subgroup), \<^verbatim>\<open>group.projects.list(all=True)\<close>, \<^verbatim>\<open>api.projects.get(pid)\<close>,
  \<^verbatim>\<open>api.users.get(api.user.id).projects.list(all=True)\<close>, \<^verbatim>\<open>obj.wikis.list(all=True)\<close>
  (the slugs of the pages), \<^verbatim>\<open>project.issues.list(all=True)\<close> and
  \<^verbatim>\<open>api.snippets.list(all=True)\<close>.
\<close>

record api =
  groups_get :: "int \<Rightarrow> group res"
  subgroups_list :: "group \<Rightarrow> int list res"
  group_projects_list :: "group \<Rightarrow> project list res"
  projects_get :: "int \<Rightarrow> project res"
  user_projects_list :: "project list res"
  group_wikis_list :: "group \<Rightarrow> string list res"
  project_wikis_list :: "project \<Rightarrow> string list res"
  issues_list :: "project \<Rightarrow> issue list res"
  snippets_list :: "snippet list res"

subsection \<open>Loops whose body may raise or may not return\<close>

text \<open>
  \<open>for_each xs body s\<close> is \<^verbatim>\<open>for x in xs: s = body(x, s)\<close>: \<open>None\<close> when a call of the
  body does not return, \<open>Some (Inl e)\<close> when one raises \<open>e\<close>, \<open>Some (Inr s')\<close> with the
  final state otherwise.
\<close>

primrec for_each :: "'a list \<Rightarrow> ('a \<Rightarrow> 's \<Rightarrow> (exn + 's) option) \<Rightarrow> 's \<Rightarrow> (exn + 's) option" where
  "for_each [] body s = Some (Inr s)"
| "for_each (x # xs) body s =
     Option.bind (body x s)
       (\<lambda>r. case r of Inl e \<Rightarrow> Some (Inl e) | Inr s' \<Rightarrow> for_each xs body s')"

lemma for_each_mono [partial_function_mono]:
  assumes "\<And>x s. mono_option (\<lambda>f. B f x s)"
  shows "mono_option (\<lambda>f. for_each xs (B f) s)"
proof (induction xs arbitrary: s)
  case Nil
  show ?case by (simp add: option.const_mono)
next
  case (Cons x xs)
  show ?case
    unfolding for_each.simps
  proof (rule bind_mono)
    show "mono_option (\<lambda>f. B f x s)" by (rule assms)
  next
    fix r :: "exn + 'b"
    show "mono_option (\<lambda>f. case r of Inl e \<Rightarrow> Some (Inl e) | Inr s' \<Rightarrow> for_each xs (B f) s')"
      by (cases r) (simp_all add: option.const_mono Cons.IH)
  qed
qed

definition and_then :: "exn + 'a \<Rightarrow> ('a \<Rightarrow> exn + 'b) \<Rightarrow> exn + 'b" where
  "and_then x f = (case x of Inl e \<Rightarrow> Inl e | Inr v \<Rightarrow> f v)"

subsection \<open>The recursive walk of the groups\<close>

text \<open>
  Lines 131 to 177. The function stores the group, calls itself on every subgroup
  that \<^verbatim>\<open>group.subgroups.list\<close> names, and then stores the group's projects. It keeps
  no record of the groups it is in the middle of, and it does not look a group up in
  \<open>groups\<close> before it descends. The recursion is not bounded by the code, so the
  model is a partial function: \<open>None\<close> is a call that does not return.
\<close>

partial_function (option) recurse_group ::
  "api \<Rightarrow> group \<Rightarrow> (int, group) dict \<Rightarrow> (int, project) dict \<Rightarrow>
     (exn + ((int, group) dict \<times> (int, project) dict)) option" where
  "recurse_group api grp groups projects =
     (let groups = dict_update groups (g_id grp) grp in
      case subgroups_list api grp of
        Raise e \<Rightarrow> Some (Inl e)
      | Ret subgroups \<Rightarrow>
          Option.bind
            (for_each subgroups
               (\<lambda>subgroup (groups, projects).
                  case groups_get api subgroup of
                    Raise e \<Rightarrow> Some (Inl e)
                  | Ret subgroup \<Rightarrow> recurse_group api subgroup groups projects)
               (groups, projects))
            (\<lambda>r. case r of
               Inl e \<Rightarrow> Some (Inl e)
             | Inr (groups, projects) \<Rightarrow>
                 (case group_projects_list api grp of
                    Raise e \<Rightarrow> Some (Inl e)
                  | Ret group_projects \<Rightarrow>
                      Some (Inr (groups,
                        fold (\<lambda>project projects. dict_update projects (p_id project) project)
                          group_projects projects)))))"

subsection \<open>Discovery\<close>

text \<open>Lines 62 to 71: the requested groups. No call is inside a \<^verbatim>\<open>try\<close>.\<close>

definition search_groups ::
  "api \<Rightarrow> int list option \<Rightarrow> (exn + ((int, group) dict \<times> (int, project) dict)) option" where
  "search_groups api gitlab_group_ids =
     (case gitlab_group_ids of
        None \<Rightarrow> Some (Inr ([], []))
      | Some gids \<Rightarrow>
          for_each gids
            (\<lambda>gid (gitlab_groups, gitlab_projects).
               case groups_get api gid of
                 Raise e \<Rightarrow> Some (Inl e)
               | Ret grp \<Rightarrow> recurse_group api grp gitlab_groups gitlab_projects)
            ([], []))"

text \<open>
  Lines 73 to 83: the requested projects. The handler of \<open>GitlabGetError\<close> only
  logs; the \<^verbatim>\<open>if project:\<close> after it reads the local variable \<open>project\<close>, which is
  unbound (\<open>None\<close> here) until a first \<^verbatim>\<open>api.projects.get\<close> has returned, and holds
  the project of an earlier iteration afterwards.
\<close>

fun search_projects ::
  "api \<Rightarrow> int list \<Rightarrow> project option \<Rightarrow> (int, project) dict \<Rightarrow> exn + (int, project) dict" where
  "search_projects api [] project gitlab_projects = Inr gitlab_projects"
| "search_projects api (pid # pids) project gitlab_projects =
     (case projects_get api pid of
        Raise e \<Rightarrow>
          if e = GitlabGetError then
            (case project of
               None \<Rightarrow> Inl UnboundLocalError
             | Some p \<Rightarrow>
                 search_projects api pids project
                   (dict_update (dict_update gitlab_projects (p_id p) p) (p_id p) p))
          else Inl e
      | Ret p \<Rightarrow>
          search_projects api pids (Some p)
            (dict_update (dict_update gitlab_projects (p_id p) p) (p_id p) p))"

text \<open>Lines 85 to 89: the user's own projects.\<close>

definition search_personal_projects :: "api \<Rightarrow> (int, project) dict \<Rightarrow> exn + (int, project) dict" where
  "search_personal_projects api gitlab_projects =
     (case user_projects_list api of
        Raise e \<Rightarrow> Inl e
      | Ret personal_projects \<Rightarrow>
          Inr (fold (\<lambda>project projects. dict_update projects (p_id project) project)
                 personal_projects gitlab_projects))"

text \<open>Lines 91 to 106: the wikis; \<open>GitlabListError\<close> is caught for each object.\<close>

fun search_group_wikis ::
  "api \<Rightarrow> group list \<Rightarrow> (string, group + project) dict \<Rightarrow> exn + (string, group + project) dict" where
  "search_group_wikis api [] gitlab_wikis = Inr gitlab_wikis"
| "search_group_wikis api (grp # rest) gitlab_wikis =
     (if g_has_wikis grp then
        (case group_wikis_list api grp of
           Ret pages \<Rightarrow>
             search_group_wikis api rest
               (if pages \<noteq> [] then dict_update gitlab_wikis (''G'' @ str_int (g_id grp)) (Inl grp)
                else gitlab_wikis)
         | Raise e \<Rightarrow>
             if e = GitlabListError then search_group_wikis api rest gitlab_wikis else Inl e)
      else search_group_wikis api rest gitlab_wikis)"

fun search_project_wikis ::
  "api \<Rightarrow> project list \<Rightarrow> (string, group + project) dict \<Rightarrow> exn + (string, group + project) dict" where
  "search_project_wikis api [] gitlab_wikis = Inr gitlab_wikis"
| "search_project_wikis api (project # rest) gitlab_wikis =
     (if p_has_wikis project then
        (case project_wikis_list api project of
           Ret pages \<Rightarrow>
             search_project_wikis api rest
               (if pages \<noteq> [] then
                  dict_update gitlab_wikis (''P'' @ str_int (p_id project)) (Inr project)
                else gitlab_wikis)
         | Raise e \<Rightarrow>
             if e = GitlabListError then search_project_wikis api rest gitlab_wikis else Inl e)
      else search_project_wikis api rest gitlab_wikis)"

text \<open>Lines 108 to 114: the issues of every project. No call is inside a \<^verbatim>\<open>try\<close>.\<close>

fun search_issues :: "api \<Rightarrow> int list \<Rightarrow> (string, issue) dict \<Rightarrow> exn + (string, issue) dict" where
  "search_issues api [] gitlab_issues = Inr gitlab_issues"
| "search_issues api (pid # pids) gitlab_issues =
     (case projects_get api pid of
        Raise e \<Rightarrow> Inl e
      | Ret project \<Rightarrow>
          (case issues_list api project of
             Raise e \<Rightarrow> Inl e
           | Ret issues \<Rightarrow>
               search_issues api pids
                 (fold (\<lambda>issue d. dict_update d (str_int pid @ ''/'' @ str_int (i_iid issue)) issue)
                    issues gitlab_issues)))"

text \<open>Lines 116 to 121: the snippets.\<close>

definition search_snippets :: "api \<Rightarrow> exn + (int, snippet) dict" where
  "search_snippets api =
     (case snippets_list api of
        Raise e \<Rightarrow> Inl e
      | Ret snippets \<Rightarrow>
          Inr (fold (\<lambda>snippet d. dict_update d (s_id snippet) snippet) snippets []))"

text \<open>The five dictionaries \<open>get_gitlab_items\<close> returns.\<close>

record items =
  gitlab_groups :: "(int, group) dict"
  gitlab_projects :: "(int, project) dict"
  gitlab_wikis :: "(string, group + project) dict"
  gitlab_issues :: "(string, issue) dict"
  gitlab_snippets :: "(int, snippet) dict"

text \<open>Lines 73 to 128: what follows the walk of the groups.\<close>

definition search_rest ::
  "api \<Rightarrow> int list option \<Rightarrow> bool \<Rightarrow> bool \<Rightarrow> bool \<Rightarrow> bool \<Rightarrow>
     (int, group) dict \<Rightarrow> (int, project) dict \<Rightarrow> exn + items" where
  "search_rest api gitlab_project_ids include_personal_projects include_wikis include_issues
     include_snippets groups projects0 =
     and_then
       (case gitlab_project_ids of
          None \<Rightarrow> Inr projects0
        | Some pids \<Rightarrow> search_projects api pids None projects0)
       (\<lambda>projects1.
     and_then
       (if include_personal_projects then search_personal_projects api projects1
        else Inr projects1)
       (\<lambda>projects.
     and_then
       (if include_wikis then
          and_then (search_group_wikis api (dict_values groups) [])
            (search_project_wikis api (dict_values projects))
        else Inr [])
       (\<lambda>wikis.
     and_then
       (if include_issues then search_issues api (dict_keys projects) [] else Inr [])
       (\<lambda>issues.
     and_then
       (if include_snippets then search_snippets api else Inr [])
       (\<lambda>snippets.
          Inr \<lparr>gitlab_groups = groups, gitlab_projects = projects, gitlab_wikis = wikis,
               gitlab_issues = issues, gitlab_snippets = snippets\<rparr>)))))"

definition get_gitlab_items ::
  "api \<Rightarrow> int list option \<Rightarrow> int list option \<Rightarrow> bool \<Rightarrow> bool \<Rightarrow> bool \<Rightarrow> bool \<Rightarrow>
     (exn + items) option" where
  "get_gitlab_items api gitlab_group_ids gitlab_project_ids include_personal_projects
     include_wikis include_issues include_snippets =
     Option.bind (search_groups api gitlab_group_ids)
       (\<lambda>r. Some (case r of
            Inl e \<Rightarrow> Inl e
          | Inr (groups, projects) \<Rightarrow>
              search_rest api gitlab_project_ids include_personal_projects include_wikis
                include_issues include_snippets groups projects))"

subsection \<open>What the claims about the walk speak of\<close>

text \<open>
  The groups below a group: the group itself, and every group below a subgroup that
  the forge lists for it. Written from the words of the specification (``every
  project found at any depth''), not from the code.
\<close>

inductive reachable :: "api \<Rightarrow> group \<Rightarrow> group \<Rightarrow> bool" where
  self: "reachable api g g"
| below: "subgroups_list api g = Ret subgroups \<Longrightarrow> s \<in> set subgroups \<Longrightarrow>
          groups_get api s = Ret h \<Longrightarrow> reachable api h k \<Longrightarrow> reachable api g k"

definition projects_under :: "api \<Rightarrow> group \<Rightarrow> project set" where
  "projects_under api grp =
     {p. \<exists>h ps. reachable api grp h \<and> group_projects_list api h = Ret ps \<and> p \<in> set ps}"

text \<open>
  A hierarchy that ends: below \<open>grp\<close> no chain of subgroups is longer than \<open>n\<close>, and
  the forge answers every call the walk makes there.
\<close>

definition returns :: "'a res \<Rightarrow> bool" where
  "returns r = (case r of Ret v \<Rightarrow> True | Raise e \<Rightarrow> False)"

fun levels_within :: "api \<Rightarrow> nat \<Rightarrow> group \<Rightarrow> bool" where
  "levels_within api 0 grp =
     (subgroups_list api grp = Ret [] \<and> returns (group_projects_list api grp))"
| "levels_within api (Suc n) grp =
     (returns (group_projects_list api grp) \<and>
      (case subgroups_list api grp of
         Raise e \<Rightarrow> False
       | Ret subgroups \<Rightarrow>
           list_all
             (\<lambda>s. case groups_get api s of Raise e \<Rightarrow> False | Ret h \<Rightarrow> levels_within api n h)
             subgroups))"

text \<open>
  The walk collects below \<open>g\<close>: from any two dictionaries a call on \<open>g\<close> returns, and
  the keys of the project dictionary it returns are the keys it was given and the
  identifiers of the projects under \<open>g\<close>, none twice.
\<close>

definition collects :: "api \<Rightarrow> group \<Rightarrow> bool" where
  "collects api g =
     (\<forall>gs ps. \<exists>gs' ps'.
        recurse_group api g gs ps = Some (Inr (gs', ps')) \<and>
        set (dict_keys ps') = set (dict_keys ps) \<union> p_id ` projects_under api g \<and>
        (distinct (dict_keys ps) \<longrightarrow> distinct (dict_keys ps')))"

text \<open>
  One project dictionary grows into another: no key is lost, and keys that were
  distinct stay distinct.
\<close>

definition grows :: "('k, 'v) dict \<Rightarrow> ('k, 'v) dict \<Rightarrow> bool" where
  "grows d d' =
     ((distinct (dict_keys d) \<longrightarrow> distinct (dict_keys d')) \<and>
      set (dict_keys d) \<subseteq> set (dict_keys d'))"

section \<open>gitlab/download.py\<close>

subsection \<open>JSON-like values\<close>

text \<open>
  The values \<open>find_matches\<close> can meet: \<open>None\<close>, booleans, numbers (integers stand for
  every number), strings, lists, and dictionaries with string keys.
\<close>

datatype json =
    JNull
  | JBool bool
  | JInt int
  | JStr string
  | JList "json list"
  | JDict "(string \<times> json) list"

subsection \<open>\<open>find_matches\<close>\<close>

text \<open>
  Lines 94 to 121. The function is decorated with \<^verbatim>\<open>@beartype\<close> and its first
  parameter is annotated \<^verbatim>\<open>None | str | list | dict[str, Any]\<close>: the decorator checks
  the argument of every call, also of the calls the function makes to itself through
  its own name, and raises \<open>BeartypeCallHintParamViolation\<close> for a value of another
  type (a number or a boolean) before the body runs. \<open>found\<close> is one list shared by
  all the calls (\<^verbatim>\<open>found += ...\<close> extends it in place); the model passes it along.
  \<open>findall\<close> is \<^verbatim>\<open>re.findall\<close>.
\<close>

fun find_matches ::
  "(string \<Rightarrow> string \<Rightarrow> string list) \<Rightarrow> json \<Rightarrow> string \<Rightarrow> string list option \<Rightarrow>
     exn + string list"
and find_in_values ::
  "(string \<Rightarrow> string \<Rightarrow> string list) \<Rightarrow> (string \<times> json) list \<Rightarrow> string \<Rightarrow> string list \<Rightarrow>
     exn + string list"
and find_in_items ::
  "(string \<Rightarrow> string \<Rightarrow> string list) \<Rightarrow> json list \<Rightarrow> string \<Rightarrow> string list \<Rightarrow>
     exn + string list"
where
  "find_matches findall (JBool b) pattern found = Inl BeartypeCallHintParamViolation"
| "find_matches findall (JInt n) pattern found = Inl BeartypeCallHintParamViolation"
| "find_matches findall (JDict kvs) pattern found =
     find_in_values findall kvs pattern (case found of None \<Rightarrow> [] | Some f \<Rightarrow> f)"
| "find_matches findall (JList xs) pattern found =
     find_in_items findall xs pattern (case found of None \<Rightarrow> [] | Some f \<Rightarrow> f)"
| "find_matches findall (JStr s) pattern found =
     Inr ((case found of None \<Rightarrow> [] | Some f \<Rightarrow> f) @ findall pattern s)"
| "find_matches findall JNull pattern found = Inr (case found of None \<Rightarrow> [] | Some f \<Rightarrow> f)"
| "find_in_values findall [] pattern found = Inr found"
| "find_in_values findall ((k, v) # kvs) pattern found =
     (case find_matches findall v pattern (Some found) of
        Inl e \<Rightarrow> Inl e
      | Inr found \<Rightarrow> find_in_values findall kvs pattern found)"
| "find_in_items findall [] pattern found = Inr found"
| "find_in_items findall (item # xs) pattern found =
     (case find_matches findall item pattern (Some found) of
        Inl e \<Rightarrow> Inl e
      | Inr found \<Rightarrow> find_in_items findall xs pattern found)"

subsection \<open>What the claim about \<open>find_matches\<close> speaks of\<close>

text \<open>
  The string leaves of a value in the order in which a walk meets them (the values
  of a dictionary in its order, the items of a list in theirs), written from the
  words of the specification and not from the code.
\<close>

fun string_leaves :: "json \<Rightarrow> string list"
and string_leaves_of_values :: "(string \<times> json) list \<Rightarrow> string list"
and string_leaves_of_items :: "json list \<Rightarrow> string list"
where
  "string_leaves (JStr s) = [s]"
| "string_leaves (JDict kvs) = string_leaves_of_values kvs"
| "string_leaves (JList xs) = string_leaves_of_items xs"
| "string_leaves JNull = []"
| "string_leaves (JBool b) = []"
| "string_leaves (JInt n) = []"
| "string_leaves_of_values [] = []"
| "string_leaves_of_values ((k, v) # kvs) = string_leaves v @ string_leaves_of_values kvs"
| "string_leaves_of_items [] = []"
| "string_leaves_of_items (x # xs) = string_leaves x @ string_leaves_of_items xs"

text \<open>A value without a number or a boolean anywhere in it.\<close>

fun no_numbers :: "json \<Rightarrow> bool"
and no_numbers_in_values :: "(string \<times> json) list \<Rightarrow> bool"
and no_numbers_in_items :: "json list \<Rightarrow> bool"
where
  "no_numbers (JStr s) = True"
| "no_numbers (JDict kvs) = no_numbers_in_values kvs"
| "no_numbers (JList xs) = no_numbers_in_items xs"
| "no_numbers JNull = True"
| "no_numbers (JBool b) = False"
| "no_numbers (JInt n) = False"
| "no_numbers_in_values [] = True"
| "no_numbers_in_values ((k, v) # kvs) = (no_numbers v \<and> no_numbers_in_values kvs)"
| "no_numbers_in_items [] = True"
| "no_numbers_in_items (x # xs) = (no_numbers x \<and> no_numbers_in_items xs)"

subsection \<open>The upload pattern\<close>

text \<open>
  Line 19: \<^verbatim>\<open>FILE_UPLOAD_PATTERN\<close>, the text \<^verbatim>\<open>uploads\/[a-zA-Z0-9\/_.-]+\<close> (the code 0x5C
  is the backslash).
\<close>

definition FILE_UPLOAD_PATTERN :: string where
  "FILE_UPLOAD_PATTERN = ''uploads'' @ [CHR 0x5C] @ ''/[a-zA-Z0-9'' @ [CHR 0x5C] @ ''/_.-]+''"

text \<open>
  What \<^verbatim>\<open>re.findall(FILE_UPLOAD_PATTERN, s)\<close> returns: scanning from the left, every
  \<^verbatim>\<open>uploads/\<close> that is followed by at least one character of the class, with the
  longest run of such characters; the scan goes on after the match.
\<close>

definition upload_char :: "char \<Rightarrow> bool" where
  "upload_char c =
     (let n = (of_char c :: nat) in
        (97 \<le> n \<and> n \<le> 122) \<or> (65 \<le> n \<and> n \<le> 90) \<or> (48 \<le> n \<and> n \<le> 57) \<or>
        c = CHR ''/'' \<or> c = CHR ''_'' \<or> c = CHR ''.'' \<or> c = CHR ''-'')"

lemma length_dropWhile_drop:
  "0 < n \<Longrightarrow> length (dropWhile P (drop n (c # cs))) < Suc (length cs)"
  by (cases n) (simp_all add: le_imp_less_Suc order_trans [OF length_dropWhile_le])

function findall_uploads :: "string \<Rightarrow> string list" where
  "findall_uploads [] = []"
| "findall_uploads (c # cs) =
     (let tail = drop 8 (c # cs) in
      if prefix ''uploads/'' (c # cs) \<and> takeWhile upload_char tail \<noteq> []
      then (''uploads/'' @ takeWhile upload_char tail) # findall_uploads (dropWhile upload_char tail)
      else findall_uploads cs)"
  by pat_completeness auto
termination
proof (relation "measure length", goal_cases)
  case 1
  show ?case by (rule wf_measure)
next
  case (2 c cs tail)
  have "length (dropWhile upload_char (drop 8 (c # cs))) < Suc (length cs)"
    by (rule length_dropWhile_drop) simp
  with 2 show ?case by (simp only: in_measure length_Cons)
next
  case (3 c cs tail)
  show ?case by (simp only: in_measure length_Cons lessI)
qed

text \<open>\<^verbatim>\<open>re.findall\<close>, for the one pattern the program passes.\<close>

definition re_findall :: "string \<Rightarrow> string \<Rightarrow> string list" where
  "re_findall pattern s = findall_uploads s"

subsection \<open>Attachment URLs of a wiki\<close>

text \<open>
  The object whose wiki is read: its \<open>web_url\<close>, \<^verbatim>\<open>obj.wikis.list(all=True)\<close> (the slugs
  of the pages) and \<^verbatim>\<open>obj.wikis.get(slug).content\<close>.
\<close>

record wiki =
  web_url :: string
  wikis_list :: "string list res"
  wikis_get :: "string \<Rightarrow> string res"

text \<open>Lines 136 to 140: the matches of every page.\<close>

fun page_matches ::
  "(string \<Rightarrow> string \<Rightarrow> string list) \<Rightarrow> wiki \<Rightarrow> string \<Rightarrow> string list \<Rightarrow> string list \<Rightarrow>
     exn + string list" where
  "page_matches findall obj pattern [] matches = Inr matches"
| "page_matches findall obj pattern (slug # pages) matches =
     (case wikis_get obj slug of
        Raise e \<Rightarrow> Inl e
      | Ret content \<Rightarrow>
          (case find_matches findall (JStr content) pattern None of
             Inl e \<Rightarrow> Inl e
           | Inr found \<Rightarrow> page_matches findall obj pattern pages (matches @ found)))"

text \<open>Lines 142 to 152: the rewrite of each match into a URL.\<close>

fun wiki_urls :: "string \<Rightarrow> string list \<Rightarrow> string list \<Rightarrow> string list" where
  "wiki_urls url [] attachment_urls = attachment_urls"
| "wiki_urls url (attachment_uri # matches) attachment_urls =
     (if attachment_uri = [] then wiki_urls url matches attachment_urls
      else
        (let attachment_uri =
               (if py_in ''uploads/-'' attachment_uri
                then py_replace attachment_uri ''uploads/-/'' ''-/wikis/uploads/''
                else attachment_uri);
             attachment_url = url @ ''/-/wikis/'' @ attachment_uri
         in wiki_urls url matches (attachment_urls @ [attachment_url])))"

definition get_wiki_attachment_urls ::
  "(string \<Rightarrow> string \<Rightarrow> string list) \<Rightarrow> wiki \<Rightarrow> string \<Rightarrow> exn + string list" where
  "get_wiki_attachment_urls findall obj pattern =
     (case wikis_list obj of
        Raise e \<Rightarrow> Inl e
      | Ret pages \<Rightarrow>
          and_then (page_matches findall obj pattern pages [])
            (\<lambda>matches. Inr (wiki_urls (web_url obj) matches [])))"

section \<open>gitlab/backups.py\<close>

subsection \<open>What the routine calls\<close>

record issue_note =
  n_id :: int








subsection \<open>The loops over the items\<close>





subsection \<open>The routine\<close>



section \<open>entrypoints.py\<close>





section \<open>Concrete runs\<close>

text \<open>
  The output of \<^verbatim>\<open>git branch --all\<close> in a fresh clone with the single branch \<open>main\<close>:
  the local branch, the remote \<open>HEAD\<close> and the remote branch.
\<close>

definition one_branch_output :: string where
  "one_branch_output =
     ''* main'' @ [CHR 0x0A] @ ''  remotes/origin/HEAD -> origin/main'' @ [CHR 0x0A] @
     ''  remotes/origin/main''"

text \<open>A repository with one branch and no submodule, on which every git call returns.\<close>

definition plain_git :: git_env where
  "plain_git =
     \<lparr>e_clone_from = Ret (), e_submodules = Ret [], e_submodule_update = Ret (),
      e_branch_all = Ret one_branch_output, e_branch_track = (\<lambda>l r. Ret ()),
      e_fetch_all = Ret (), e_pull_all = Ret ()\<rparr>"

text \<open>The same repository with one submodule, whose update returns.\<close>

definition submodule_git :: git_env where
  "submodule_git = plain_git\<lparr>e_submodules := Ret [''https://forge.example/org/lib.git'']\<rparr>"

text \<open>A repository on which \<^verbatim>\<open>git branch --all\<close> fails after the clone.\<close>

definition broken_git :: git_env where
  "broken_git = plain_git\<lparr>e_branch_all := Raise GitCommandError\<rparr>"

definition proj :: "int \<Rightarrow> string \<Rightarrow> project" where
  "proj n name =
     \<lparr>p_id = n, p_name = name, p_web_url = ''https://forge.example/org/'' @ name,
      p_path_with_namespace = ''org/'' @ name, p_has_wikis = True\<rparr>"

text \<open>A machine with eight processors on which the side-car file cannot be written.\<close>

definition full_disk_world :: world where
  "full_disk_world =
     \<lparr>w_cpu_count = Some 8, w_git = (\<lambda>url target. plain_git),
      w_write_json = (\<lambda>path. Raise OSError), w_resolve = (\<lambda>d rel. d @ ''/'' @ rel)\<rparr>"

text \<open>A machine on which every repository has a submodule and every call returns.\<close>

definition submodule_world :: world where
  "submodule_world =
     \<lparr>w_cpu_count = Some 8, w_git = (\<lambda>url target. submodule_git),
      w_write_json = (\<lambda>path. Ret ()), w_resolve = (\<lambda>d rel. d @ ''/'' @ rel)\<rparr>"

text \<open>Five projects; the repository of the third is the broken one.\<close>

definition five_projects :: "(int, project) dict" where
  "five_projects =
     [(1, proj 1 ''a''), (2, proj 2 ''b''), (3, proj 3 ''c''), (4, proj 4 ''d''),
      (5, proj 5 ''e'')]"

definition five_world :: world where
  "five_world =
     \<lparr>w_cpu_count = Some 8,
      w_git = (\<lambda>url target. if url = ''https://forge.example/org/c'' then broken_git else plain_git),
      w_write_json = (\<lambda>path. Ret ()), w_resolve = (\<lambda>d rel. d @ ''/'' @ rel)\<rparr>"


text \<open>
  A wiki with one page that embeds one upload.
\<close>

definition example_wiki :: wiki where
  "example_wiki =
     \<lparr>web_url = ''https://forge.example/org/proj'', wikis_list = Ret [''home''],
      wikis_get = (\<lambda>slug. Ret ''See ![shot](uploads/-/abc/file.png) here'')\<rparr>"

text \<open>
  A forge without groups on which project 7 has been deleted, and one on which
  project 7 exists and listing its issues is refused.
\<close>

definition deleted_project_forge :: api where
  "deleted_project_forge =
     \<lparr>groups_get = (\<lambda>gid. Raise GitlabGetError), subgroups_list = (\<lambda>g. Ret []),
      group_projects_list = (\<lambda>g. Ret []), projects_get = (\<lambda>pid. Raise GitlabGetError),
      user_projects_list = Ret [], group_wikis_list = (\<lambda>g. Ret []),
      project_wikis_list = (\<lambda>p. Ret []), issues_list = (\<lambda>p. Ret []),
      snippets_list = Ret []\<rparr>"

definition issues_refused_forge :: api where
  "issues_refused_forge =
     deleted_project_forge
       \<lparr>projects_get := (\<lambda>pid. if pid = 7 then Ret (proj 7 ''proj'') else Raise GitlabGetError),
        issues_list := (\<lambda>p. Raise GitlabListError)\<rparr>"

definition grp_of :: "int \<Rightarrow> string \<Rightarrow> group" where
  "grp_of n name =
     \<lparr>g_id = n, g_name = name, g_web_url = ''https://forge.example/'' @ name,
      g_path_with_namespace = name, g_has_wikis = True\<rparr>"

text \<open>
  A forge on which group 1 lists group 2 as its subgroup and group 2 lists group 1.
\<close>

definition cyclic_forge :: api where
  "cyclic_forge =
     deleted_project_forge
       \<lparr>groups_get := (\<lambda>gid. Ret (grp_of gid ''g'')),
        subgroups_list := (\<lambda>g. if g_id g = 1 then Ret [2] else Ret [1])\<rparr>"

text \<open>
  A tree of three levels with projects at each: group 1 holds project 10 and the
  subgroups 2 and 3; group 2 holds the projects 20 and 21 and the subgroup 4; group 3
  holds project 30; group 4 holds the projects 40 and 41. A project listed by a group
  is a \<open>GroupProject\<close>, which has no \<open>wikis\<close> attribute; \<^verbatim>\<open>api.projects.get\<close> returns a
  \<open>Project\<close>, which has.
\<close>

definition listed :: "int \<Rightarrow> string \<Rightarrow> project" where
  "listed n name = (proj n name)\<lparr>p_has_wikis := False\<rparr>"

definition tree_forge :: api where
  "tree_forge =
     deleted_project_forge
       \<lparr>groups_get := (\<lambda>gid. Ret (grp_of gid ''g'')),
        subgroups_list :=
          (\<lambda>g. if g_id g = 1 then Ret [2, 3] else if g_id g = 2 then Ret [4] else Ret []),
        group_projects_list :=
          (\<lambda>g. if g_id g = 1 then Ret [listed 10 ''a'']
                else if g_id g = 2 then Ret [listed 20 ''b'', listed 21 ''c'']
                else if g_id g = 3 then Ret [listed 30 ''d'']
                else if g_id g = 4 then Ret [listed 40 ''e'', listed 41 ''f'']
                else Ret []),
        projects_get := (\<lambda>pid. if pid = 20 then Ret (proj 20 ''b'') else Raise GitlabGetError)\<rparr>"

text \<open>The machine of the five projects with two processors.\<close>

definition two_cpu_world :: world where
  "two_cpu_world = five_world\<lparr>w_cpu_count := Some 2\<rparr>"






section \<open>Properties of git/clone.py\<close>

subsection \<open>Helper facts\<close>

lemma one_branch_lines:
  "py_split (py_replace one_branch_output ''remotes/'' []) (CHR 0x0A) =
     [''* main'', ''  origin/HEAD -> origin/main'', ''  origin/main'']"
  by (simp add: one_branch_output_def py_replace_def)

lemma strip_origin_main: "py_strip ''  origin/main'' = ''origin/main''"
  by (simp add: py_strip_def py_isspace_def)

lemma update_branches_plain:
  "update_branches plain_git r = Inr (r\<lparr>branches := [''origin/main''], is_branches_updated := True\<rparr>)"
  by (simp add: update_branches_def plain_git_def one_branch_lines strip_origin_main)

lemma update_branches_submodule:
  "update_branches submodule_git r =
     Inr (r\<lparr>branches := [''origin/main''], is_branches_updated := True\<rparr>)"
  by (simp add: update_branches_def submodule_git_def plain_git_def one_branch_lines
      strip_origin_main)

lemma update_submodules_keeps:
  "update_submodules g r = Inr r' \<Longrightarrow>
     is_cloned r' = is_cloned r \<and> is_submodules_updated r' = is_submodules_updated r \<and>
     is_branches_updated r' = is_branches_updated r \<and> success r' = success r"
  by (auto simp: update_submodules_def Let_def split: res.splits if_splits)

lemma pull_all_keeps:
  "pull_all g r = Inr r' \<Longrightarrow>
     is_cloned r' = is_cloned r \<and> is_submodules_updated r' = is_submodules_updated r \<and>
     submodules r' = submodules r \<and> success r' = success r"
  by (auto simp: pull_all_def split: res.splits if_splits)

lemma update_branches_keeps:
  "update_branches g r = Inr r' \<Longrightarrow>
     is_cloned r' = is_cloned r \<and> is_submodules_updated r' = is_submodules_updated r \<and>
     submodules r' = submodules r \<and> success r' = success r"
  by (auto simp: update_branches_def Let_def split: res.splits if_splits option.splits
      dest!: pull_all_keeps)

text \<open>
  After the three stages the flag \<open>is_submodules_updated\<close> is what it was before them:
  no stage writes it.
\<close>

lemma stages_keep:
  assumes "update_submodules g r1 = Inr r2" and "update_branches g r2 = Inr r3"
  shows "is_cloned r3 = is_cloned r1 \<and> is_submodules_updated r3 = is_submodules_updated r1"
  using update_submodules_keeps [OF assms(1)] update_branches_keeps [OF assms(2)] by simp

lemma derive_success_iff:
  "\<not> is_submodules_updated r \<Longrightarrow>
   success (derive_success r) =
     (is_cloned (derive_success r) \<and>
      (submodules (derive_success r) = [] \<or> is_submodules_updated (derive_success r)) \<and>
      is_branches_updated (derive_success r))"
  by (auto simp: derive_success_def)

lemma try_clone_cases:
  "try_clone g r f = Inr (b, r') \<Longrightarrow> r' = (if b then f r else r)"
  by (auto simp: try_clone_def split: res.splits if_splits)

lemma clone_project_body_Inr:
  assumes "clone_project_body w a = Inr r"
  shows "success r =
     (is_cloned r \<and> (submodules r = [] \<or> is_submodules_updated r) \<and> is_branches_updated r)"
proof -
  obtain project target_path where a: "a = (project, target_path)" by (cases a)
  define r0 where "r0 = initial_result\<lparr>r_name := p_name project, r_url := p_web_url project,
                                r_id := p_id project, r_path := target_path\<rparr>"
  define g where "g = w_git w (p_web_url project) target_path"
  from assms obtain b r1 where tc: "try_clone g r0 (\<lambda>r. r\<lparr>is_cloned := True\<rparr>) = Inr (b, r1)"
    by (auto simp: clone_project_body_def a Let_def r0_def g_def split: sum.splits)
  from try_clone_cases [OF tc] have r1: "r1 = (if b then r0\<lparr>is_cloned := True\<rparr> else r0)" .
  show ?thesis
  proof (cases b)
    case False
    with assms tc r1 have "r = r0"
      by (simp add: clone_project_body_def a Let_def r0_def g_def)
    then show ?thesis by (simp add: r0_def initial_result_def)
  next
    case True
    with assms tc obtain r2 r3 where
      s: "update_submodules g r1 = Inr r2" and b: "update_branches g r2 = Inr r3"
      and r: "r = derive_success r3"
      by (auto simp: clone_project_body_def a Let_def r0_def g_def split: sum.splits res.splits)
    from stages_keep [OF s b] r1 True have "\<not> is_submodules_updated r3"
      by (simp add: r0_def initial_result_def)
    then show ?thesis unfolding r by (rule derive_success_iff)
  qed
qed

lemma clone_wiki_body_Inr:
  assumes "clone_wiki_body w a = Inr r"
  shows "success r =
     (is_cloned r \<and> (submodules r = [] \<or> is_submodules_updated r) \<and> is_branches_updated r)"
proof -
  obtain obj target_path where a: "a = (obj, target_path)" by (cases a)
  define r0 where "r0 = initial_result\<lparr>r_name := o_name obj @ '' Wiki'',
                                r_url := o_web_url obj @ ''.wiki.git'',
                                r_id := o_id obj, r_path := target_path\<rparr>"
  define g where "g = w_git w (r_url r0) target_path"
  from assms obtain b r1 where tc: "try_clone g r0 (\<lambda>r. r\<lparr>is_cloned := True\<rparr>) = Inr (b, r1)"
    by (auto simp: clone_wiki_body_def a Let_def r0_def g_def split: sum.splits)
  from try_clone_cases [OF tc] have r1: "r1 = (if b then r0\<lparr>is_cloned := True\<rparr> else r0)" .
  show ?thesis
  proof (cases b)
    case False
    with assms tc r1 have "r = r0"
      by (simp add: clone_wiki_body_def a Let_def r0_def g_def)
    then show ?thesis by (simp add: r0_def initial_result_def)
  next
    case True
    with assms tc obtain r2 r3 where
      s: "update_submodules g r1 = Inr r2" and b: "update_branches g r2 = Inr r3"
      and r: "r = derive_success r3"
      by (auto simp: clone_wiki_body_def a Let_def r0_def g_def split: sum.splits)
    from stages_keep [OF s b] r1 True have "\<not> is_submodules_updated r3"
      by (simp add: r0_def initial_result_def)
    then show ?thesis unfolding r by (rule derive_success_iff)
  qed
qed

lemma clone_snippet_body_Inr:
  assumes "clone_snippet_body w a = Inr r"
  shows "sn_success r = sn_is_cloned r"
  using assms
  by (cases a)
    (auto simp: clone_snippet_body_def try_clone_def Let_def initial_snippet_result_def
      split: sum.splits res.splits if_splits)

lemma on_exit_raised: "isl x \<Longrightarrow> \<not> success (on_exit x)"
  by (cases x) (auto simp: on_exit_def)

lemma on_exit_returned: "\<not> isl x \<Longrightarrow> on_exit x = projr x"
  by (cases x) (auto simp: on_exit_def)

lemma try_clone_plain: "try_clone plain_git r f = Inr (True, f r)"
  by (simp add: try_clone_def plain_git_def)

lemma update_submodules_plain: "update_submodules plain_git r = Inr r"
  by (simp add: update_submodules_def plain_git_def)

lemma try_clone_submodule: "try_clone submodule_git r f = Inr (True, f r)"
  by (simp add: try_clone_def submodule_git_def plain_git_def)

lemma update_submodules_submodule:
  "update_submodules submodule_git r =
     Inr (r\<lparr>submodules := [''https://forge.example/org/lib.git''],
            is_submodules_cloned := Some True\<rparr>)"
  by (simp add: update_submodules_def submodule_git_def plain_git_def)

lemma try_clone_broken: "try_clone broken_git r f = Inr (True, f r)"
  by (simp add: try_clone_def broken_git_def plain_git_def)

lemma update_submodules_broken: "update_submodules broken_git r = Inr r"
  by (simp add: update_submodules_def broken_git_def plain_git_def)

lemma update_branches_broken: "update_branches broken_git r = Inl (GitCommandError, r)"
  by (simp add: update_branches_def broken_git_def plain_git_def)

subsection \<open>The derived success flag\<close>

text \<open>
  Claim C1, counterexample. A project with one branch and no submodule is cloned and
  its branch step completes, then writing the side-car file raises \<open>OSError\<close>: the
  outer handler sets \<open>success\<close> to \<open>False\<close>, while \<open>is_cloned\<close> and
  \<open>is_branches_updated\<close> are \<open>True\<close> and the submodule list is empty.
\<close>

theorem success_flag_counterexample:
  "\<not> (success (clone_project full_disk_world (proj 7 ''proj'', ''/backup/org/proj'')) \<longleftrightarrow>
        is_cloned (clone_project full_disk_world (proj 7 ''proj'', ''/backup/org/proj'')) \<and>
        (submodules (clone_project full_disk_world (proj 7 ''proj'', ''/backup/org/proj'')) = [] \<or>
         is_submodules_updated
           (clone_project full_disk_world (proj 7 ''proj'', ''/backup/org/proj''))) \<and>
        is_branches_updated (clone_project full_disk_world (proj 7 ''proj'', ''/backup/org/proj'')))"
  by (simp add: clone_project_def clone_project_body_def on_exit_def try_clone_plain
      update_submodules_plain update_branches_plain full_disk_world_def proj_def Let_def
      initial_result_def)

text \<open>
  Claim C1, as amended. For the result of one clone attempt of a project or a wiki,
  \<open>success\<close> holds if and only if the body of the attempt ended without an exception
  reaching the outer handlers, and \<open>is_cloned\<close>, and the submodule list is empty or
  \<open>is_submodules_updated\<close>, and \<open>is_branches_updated\<close>. The result of a snippet has
  neither submodules nor branches: its \<open>success\<close> holds if and only if the body
  ended without such an exception and \<open>is_cloned\<close>.
\<close>

theorem success_flag:
  "(success (clone_project w a) \<longleftrightarrow>
      \<not> isl (clone_project_body w a) \<and> is_cloned (clone_project w a) \<and>
      (submodules (clone_project w a) = [] \<or> is_submodules_updated (clone_project w a)) \<and>
      is_branches_updated (clone_project w a)) \<and>
   (success (clone_wiki w b) \<longleftrightarrow>
      \<not> isl (clone_wiki_body w b) \<and> is_cloned (clone_wiki w b) \<and>
      (submodules (clone_wiki w b) = [] \<or> is_submodules_updated (clone_wiki w b)) \<and>
      is_branches_updated (clone_wiki w b)) \<and>
   (sn_success (clone_snippet w c) \<longleftrightarrow>
      \<not> isl (clone_snippet_body w c) \<and> sn_is_cloned (clone_snippet w c))"
proof (intro conjI)
  show "success (clone_project w a) \<longleftrightarrow>
      \<not> isl (clone_project_body w a) \<and> is_cloned (clone_project w a) \<and>
      (submodules (clone_project w a) = [] \<or> is_submodules_updated (clone_project w a)) \<and>
      is_branches_updated (clone_project w a)"
  proof (cases "clone_project_body w a")
    case (Inl x)
    then show ?thesis by (simp add: clone_project_def on_exit_raised)
  next
    case (Inr r)
    then show ?thesis using clone_project_body_Inr [OF Inr]
      by (simp add: clone_project_def on_exit_def)
  qed
  show "success (clone_wiki w b) \<longleftrightarrow>
      \<not> isl (clone_wiki_body w b) \<and> is_cloned (clone_wiki w b) \<and>
      (submodules (clone_wiki w b) = [] \<or> is_submodules_updated (clone_wiki w b)) \<and>
      is_branches_updated (clone_wiki w b)"
  proof (cases "clone_wiki_body w b")
    case (Inl x)
    then show ?thesis by (simp add: clone_wiki_def on_exit_raised)
  next
    case (Inr r)
    then show ?thesis using clone_wiki_body_Inr [OF Inr]
      by (simp add: clone_wiki_def on_exit_def)
  qed
  show "sn_success (clone_snippet w c) \<longleftrightarrow>
      \<not> isl (clone_snippet_body w c) \<and> sn_is_cloned (clone_snippet w c)"
  proof (cases "clone_snippet_body w c")
    case (Inl x)
    then show ?thesis by (cases x) (simp add: clone_snippet_def)
  next
    case (Inr r)
    then show ?thesis using clone_snippet_body_Inr [OF Inr]
      by (simp add: clone_snippet_def)
  qed
qed

text \<open>
  What the statement above leaves open is when \<open>is_submodules_updated\<close> is set. After
  a submodule update that returned, lines 62 and 162 store \<open>True\<close> under the key
  \<^verbatim>\<open>is_submodules_cloned\<close>; the key \<^verbatim>\<open>is_submodules_updated\<close> that the flag reads keeps
  its initial \<open>False\<close>. On a project with one submodule where every call returns:
\<close>

lemma submodule_update_not_recorded:
  "is_submodules_cloned (clone_project submodule_world (proj 7 ''proj'', ''/backup/org/proj'')) = Some True \<and>
   is_submodules_updated (clone_project submodule_world (proj 7 ''proj'', ''/backup/org/proj'')) = False \<and>
   success (clone_project submodule_world (proj 7 ''proj'', ''/backup/org/proj'')) = False"
  by (simp add: clone_project_def clone_project_body_def on_exit_def try_clone_submodule
      update_submodules_submodule update_branches_submodule submodule_world_def proj_def Let_def
      initial_result_def derive_success_def)

subsection \<open>The size of the pool\<close>

text \<open>
  Claim C2 says that the pool has \<open>max 1 (cpu_count - 2)\<close> processes. The code computes
  \<open>min 1 (cpu_count - 2)\<close>: with eight processors the pool has one process, not six, and
  with two processors the number is zero and \<open>Pool\<close> raises \<open>ValueError\<close>.
\<close>

theorem pool_size_is_min:
  "Pool (Some 8) = Inr 1 \<and> max 1 (8 - 2) = (6 :: int) \<and> Pool (Some 2) = Inl ValueError"
  by (simp add: Pool_def pool_processes_def)

subsection \<open>The list of results\<close>

lemma five_world_simps:
  "w_cpu_count five_world = Some 8"
  "w_resolve five_world d rel = d @ ''/'' @ rel"
  "w_write_json five_world path = Ret ()"
  "w_git five_world ''https://forge.example/org/a'' t = plain_git"
  "w_git five_world ''https://forge.example/org/b'' t = plain_git"
  "w_git five_world ''https://forge.example/org/c'' t = broken_git"
  "w_git five_world ''https://forge.example/org/d'' t = plain_git"
  "w_git five_world ''https://forge.example/org/e'' t = plain_git"
  by (simp_all add: five_world_def)

lemma five_args:
  "map (\<lambda>project. (project, w_resolve five_world ''/backup'' (p_path_with_namespace project)))
     (dict_values five_projects) =
   [(proj 1 ''a'', ''/backup/org/a''), (proj 2 ''b'', ''/backup/org/b''),
    (proj 3 ''c'', ''/backup/org/c''), (proj 4 ''d'', ''/backup/org/d''),
    (proj 5 ''e'', ''/backup/org/e'')]"
  by (simp add: five_projects_def dict_values_def five_world_simps proj_def)

lemma five_results:
  "clone_projects five_world five_projects ''/backup'' =
     Inr (map (clone_project five_world)
       [(proj 1 ''a'', ''/backup/org/a''), (proj 2 ''b'', ''/backup/org/b''),
        (proj 3 ''c'', ''/backup/org/c''), (proj 4 ''d'', ''/backup/org/d''),
        (proj 5 ''e'', ''/backup/org/e'')])"
  unfolding clone_projects_def Let_def five_args
  by (simp add: Pool_def pool_processes_def pool_map_def five_world_simps)

lemma five_body_ok:
  "clone_project_body five_world (proj 1 ''a'', ''/backup/org/a'') =
     Inr (initial_result\<lparr>r_name := ''a'', r_url := ''https://forge.example/org/a'', r_id := 1,
       r_path := ''/backup/org/a'', is_cloned := True, branches := [''origin/main''],
       is_branches_updated := True, success := True\<rparr>)"
  "clone_project_body five_world (proj 2 ''b'', ''/backup/org/b'') =
     Inr (initial_result\<lparr>r_name := ''b'', r_url := ''https://forge.example/org/b'', r_id := 2,
       r_path := ''/backup/org/b'', is_cloned := True, branches := [''origin/main''],
       is_branches_updated := True, success := True\<rparr>)"
  "clone_project_body five_world (proj 4 ''d'', ''/backup/org/d'') =
     Inr (initial_result\<lparr>r_name := ''d'', r_url := ''https://forge.example/org/d'', r_id := 4,
       r_path := ''/backup/org/d'', is_cloned := True, branches := [''origin/main''],
       is_branches_updated := True, success := True\<rparr>)"
  "clone_project_body five_world (proj 5 ''e'', ''/backup/org/e'') =
     Inr (initial_result\<lparr>r_name := ''e'', r_url := ''https://forge.example/org/e'', r_id := 5,
       r_path := ''/backup/org/e'', is_cloned := True, branches := [''origin/main''],
       is_branches_updated := True, success := True\<rparr>)"
  by (simp_all add: clone_project_body_def proj_def five_world_simps try_clone_plain
      update_submodules_plain update_branches_plain derive_success_def initial_result_def)

lemma five_body_broken:
  "clone_project_body five_world (proj 3 ''c'', ''/backup/org/c'') =
     Inl (GitCommandError,
       initial_result\<lparr>r_name := ''c'', r_url := ''https://forge.example/org/c'', r_id := 3,
         r_path := ''/backup/org/c'', is_cloned := True\<rparr>)"
  by (simp add: clone_project_body_def proj_def five_world_simps try_clone_broken
      update_submodules_broken update_branches_broken initial_result_def)

lemma Pool_returns: "cpu = Some n \<Longrightarrow> 3 \<le> n \<Longrightarrow> Pool cpu = Inr 1"
  by (simp add: Pool_def pool_processes_def)

text \<open>
  Claim C3 says that for every input mapping the list written to \<^verbatim>\<open>results.json\<close> has
  one result per item and that no item is dropped. On a machine with two processors,
  or with one, \<open>min 1 (cpu_count - 2)\<close> is below one and \<open>Pool\<close> raises \<open>ValueError\<close>
  before any worker runs: for the five projects nothing is written and every item
  is lost. It is the defect of claim C2.
\<close>

theorem results_lost_without_pool:
  "length five_projects = 5 \<and>
   clone_projects two_cpu_world five_projects ''/backup'' = Inl ValueError \<and>
   clone_projects (two_cpu_world\<lparr>w_cpu_count := Some 1\<rparr>) five_projects ''/backup'' =
     Inl ValueError"
  by (simp add: clone_projects_def Pool_def pool_processes_def two_cpu_world_def
      five_world_def five_projects_def)

text \<open>
  Where the pool can be created, which is the case on a machine with at least three
  processors, the list is written and has one result per item of the input mapping;
  the result of every item is in it, and for an item whose attempt was ended by an
  exception (an unexpected error or an interrupt) that result has
  \<open>success = False\<close>.
\<close>

lemma results_cardinality:
  "(clone_projects w projects d = Inr rs_p \<longrightarrow>
      length rs_p = length projects \<and>
      (\<forall>project \<in> set (dict_values projects).
         clone_project w (project, w_resolve w d (p_path_with_namespace project)) \<in> set rs_p \<and>
         (isl (clone_project_body w (project, w_resolve w d (p_path_with_namespace project))) \<longrightarrow>
          \<not> success
              (clone_project w (project, w_resolve w d (p_path_with_namespace project)))))) \<and>
   (clone_wikis w wikis d = Inr rs_w \<longrightarrow>
      length rs_w = length wikis \<and>
      (\<forall>obj \<in> set (dict_values wikis).
         clone_wiki w (obj, w_resolve w d (o_path_with_namespace obj @ ''.wiki'')) \<in> set rs_w \<and>
         (isl (clone_wiki_body w (obj, w_resolve w d (o_path_with_namespace obj @ ''.wiki''))) \<longrightarrow>
          \<not> success
              (clone_wiki w (obj, w_resolve w d (o_path_with_namespace obj @ ''.wiki'')))))) \<and>
   (clone_snippets w snippets d = Inr rs_s \<longrightarrow>
      length rs_s = length snippets \<and>
      (\<forall>snippet \<in> set (dict_values snippets).
         clone_snippet w (snippet, w_resolve w (d @ ''/snippets'') (str_int (s_id snippet)))
           \<in> set rs_s \<and>
         (isl (clone_snippet_body w
                 (snippet, w_resolve w (d @ ''/snippets'') (str_int (s_id snippet)))) \<longrightarrow>
          \<not> sn_success
              (clone_snippet w
                 (snippet, w_resolve w (d @ ''/snippets'') (str_int (s_id snippet))))))) \<and>
   (w_cpu_count w = Some n \<and> 3 \<le> n \<longrightarrow>
      \<not> isl (clone_projects w projects d) \<and> \<not> isl (clone_wikis w wikis d) \<and>
      \<not> isl (clone_snippets w snippets d))"
proof (intro conjI impI)
  assume "clone_projects w projects d = Inr rs_p"
  then have rs: "rs_p = map (clone_project w)
      (map (\<lambda>project. (project, w_resolve w d (p_path_with_namespace project)))
        (dict_values projects))"
    by (auto simp: clone_projects_def pool_map_def Let_def split: sum.splits)
  show "length rs_p = length projects" by (simp add: rs dict_values_def)
  show "\<forall>project \<in> set (dict_values projects).
         clone_project w (project, w_resolve w d (p_path_with_namespace project)) \<in> set rs_p \<and>
         (isl (clone_project_body w (project, w_resolve w d (p_path_with_namespace project))) \<longrightarrow>
          \<not> success
              (clone_project w (project, w_resolve w d (p_path_with_namespace project))))"
    by (auto simp: rs clone_project_def on_exit_raised)
next
  assume "clone_wikis w wikis d = Inr rs_w"
  then have rs: "rs_w = map (clone_wiki w)
      (map (\<lambda>obj. (obj, w_resolve w d (o_path_with_namespace obj @ ''.wiki'')))
        (dict_values wikis))"
    by (auto simp: clone_wikis_def pool_map_def Let_def split: sum.splits)
  show "length rs_w = length wikis" by (simp add: rs dict_values_def)
  show "\<forall>obj \<in> set (dict_values wikis).
         clone_wiki w (obj, w_resolve w d (o_path_with_namespace obj @ ''.wiki'')) \<in> set rs_w \<and>
         (isl (clone_wiki_body w (obj, w_resolve w d (o_path_with_namespace obj @ ''.wiki''))) \<longrightarrow>
          \<not> success
              (clone_wiki w (obj, w_resolve w d (o_path_with_namespace obj @ ''.wiki''))))"
    by (auto simp: rs clone_wiki_def on_exit_raised)
next
  assume "clone_snippets w snippets d = Inr rs_s"
  then have rs: "rs_s = map (clone_snippet w)
      (map (\<lambda>snippet. (snippet, w_resolve w (d @ ''/snippets'') (str_int (s_id snippet))))
        (dict_values snippets))"
    by (auto simp: clone_snippets_def pool_map_def Let_def split: sum.splits)
  show "length rs_s = length snippets" by (simp add: rs dict_values_def)
  show "\<forall>snippet \<in> set (dict_values snippets).
         clone_snippet w (snippet, w_resolve w (d @ ''/snippets'') (str_int (s_id snippet)))
           \<in> set rs_s \<and>
         (isl (clone_snippet_body w
                 (snippet, w_resolve w (d @ ''/snippets'') (str_int (s_id snippet)))) \<longrightarrow>
          \<not> sn_success
              (clone_snippet w
                 (snippet, w_resolve w (d @ ''/snippets'') (str_int (s_id snippet)))))"
    by (auto simp: rs clone_snippet_def split: sum.splits)
next
  assume "w_cpu_count w = Some n \<and> 3 \<le> n"
  then have p: "Pool (w_cpu_count w) = Inr 1" by (simp add: Pool_returns)
  show "\<not> isl (clone_projects w projects d)" by (simp add: clone_projects_def p)
  show "\<not> isl (clone_wikis w wikis d)" by (simp add: clone_wikis_def p)
  show "\<not> isl (clone_snippets w snippets d)" by (simp add: clone_snippets_def p Let_def)
qed

lemma results_cardinality_example:
  "\<exists>rs. clone_projects five_world five_projects ''/backup'' = Inr rs \<and> length rs = 5 \<and>
     length five_projects = 5 \<and>
     isl (clone_project_body five_world (proj 3 ''c'', ''/backup/org/c'')) \<and>
     clone_project five_world (proj 3 ''c'', ''/backup/org/c'') \<in> set rs \<and>
     \<not> success (clone_project five_world (proj 3 ''c'', ''/backup/org/c'')) \<and>
     map success rs = [True, True, False, True, True]"
proof -
  let ?rs = "map (clone_project five_world)
       [(proj 1 ''a'', ''/backup/org/a''), (proj 2 ''b'', ''/backup/org/b''),
        (proj 3 ''c'', ''/backup/org/c''), (proj 4 ''d'', ''/backup/org/d''),
        (proj 5 ''e'', ''/backup/org/e'')]"
  have raised: "isl (clone_project_body five_world (proj 3 ''c'', ''/backup/org/c''))"
    by (simp add: five_body_broken)
  have third: "proj 3 ''c'' \<in> set (dict_values five_projects)"
    by (simp add: five_projects_def dict_values_def)
  have path: "w_resolve five_world ''/backup'' (p_path_with_namespace (proj 3 ''c'')) = ''/backup/org/c''"
    by (simp add: five_world_simps proj_def)
  from results_cardinality [of five_world five_projects "''/backup''" ?rs] five_results
  have len: "length ?rs = length five_projects"
    and all: "\<forall>project \<in> set (dict_values five_projects).
         clone_project five_world
           (project, w_resolve five_world ''/backup'' (p_path_with_namespace project)) \<in> set ?rs \<and>
         (isl (clone_project_body five_world
                 (project, w_resolve five_world ''/backup'' (p_path_with_namespace project))) \<longrightarrow>
          \<not> success
              (clone_project five_world
                 (project, w_resolve five_world ''/backup'' (p_path_with_namespace project))))"
    by blast+
  from bspec [OF all third] raised
  have mem: "clone_project five_world (proj 3 ''c'', ''/backup/org/c'') \<in> set ?rs"
    and fail: "\<not> success (clone_project five_world (proj 3 ''c'', ''/backup/org/c''))"
    unfolding path by blast+
  have flags: "map success ?rs = [True, True, False, True, True]"
    using fail by (simp add: clone_project_def five_body_ok on_exit_def initial_result_def)
  have n: "length five_projects = 5" by (simp add: five_projects_def)
  show ?thesis
    using five_results len n raised mem fail flags by (intro exI [of _ ?rs]) simp
qed

text \<open>
  Claim C10. The list written to \<^verbatim>\<open>results.json\<close> is in the order of the input
  mapping's values: its \<open>i\<close>-th element is the result of the attempt on the \<open>i\<close>-th
  value, for \<open>clone_projects\<close>, \<open>clone_wikis\<close> and \<open>clone_snippets\<close>.
\<close>

theorem results_order:
  "(clone_projects w projects d = Inr rs_p \<longrightarrow>
      length rs_p = length (dict_values projects) \<and>
      (\<forall>i < length (dict_values projects).
         rs_p ! i =
           clone_project w
             (dict_values projects ! i,
              w_resolve w d (p_path_with_namespace (dict_values projects ! i))))) \<and>
   (clone_wikis w wikis d = Inr rs_w \<longrightarrow>
      length rs_w = length (dict_values wikis) \<and>
      (\<forall>i < length (dict_values wikis).
         rs_w ! i =
           clone_wiki w
             (dict_values wikis ! i,
              w_resolve w d (o_path_with_namespace (dict_values wikis ! i) @ ''.wiki'')))) \<and>
   (clone_snippets w snippets d = Inr rs_s \<longrightarrow>
      length rs_s = length (dict_values snippets) \<and>
      (\<forall>i < length (dict_values snippets).
         rs_s ! i =
           clone_snippet w
             (dict_values snippets ! i,
              w_resolve w (d @ ''/snippets'') (str_int (s_id (dict_values snippets ! i))))))"
  by (auto simp: clone_projects_def clone_wikis_def clone_snippets_def pool_map_def Let_def
      split: sum.splits)

theorem results_order_witness:
  "\<exists>rs. clone_projects five_world five_projects ''/backup'' = Inr rs \<and>
     dict_values five_projects ! 2 = proj 3 ''c'' \<and>
     rs ! 2 = clone_project five_world (proj 3 ''c'', ''/backup/org/c'') \<and>
     r_name (rs ! 2) = ''c'' \<and> r_id (rs ! 2) = 3"
proof -
  let ?rs = "map (clone_project five_world)
       [(proj 1 ''a'', ''/backup/org/a''), (proj 2 ''b'', ''/backup/org/b''),
        (proj 3 ''c'', ''/backup/org/c''), (proj 4 ''d'', ''/backup/org/d''),
        (proj 5 ''e'', ''/backup/org/e'')]"
  have v: "dict_values five_projects ! 2 = proj 3 ''c''"
    by (simp add: five_projects_def dict_values_def)
  have i: "2 < length (dict_values five_projects)"
    by (simp add: five_projects_def dict_values_def)
  have path: "w_resolve five_world ''/backup'' (p_path_with_namespace (proj 3 ''c'')) = ''/backup/org/c''"
    by (simp add: five_world_simps proj_def)
  from results_order [of five_world five_projects "''/backup''" ?rs] five_results i
  have "?rs ! 2 =
      clone_project five_world
        (dict_values five_projects ! 2,
         w_resolve five_world ''/backup'' (p_path_with_namespace (dict_values five_projects ! 2)))"
    by blast
  then have third: "?rs ! 2 = clone_project five_world (proj 3 ''c'', ''/backup/org/c'')"
    by (simp only: v path)
  have "r_name (clone_project five_world (proj 3 ''c'', ''/backup/org/c'')) = ''c'' \<and>
        r_id (clone_project five_world (proj 3 ''c'', ''/backup/org/c'')) = 3"
    by (simp add: clone_project_def five_body_broken on_exit_def)
  with five_results v third show ?thesis
    by (intro exI [of _ ?rs]) (simp only: simp_thms)
qed

section \<open>Properties of gitlab/download.py\<close>

subsection \<open>\<open>find_matches\<close>\<close>

lemma find_matches_all:
  "find_matches findall obj pattern found =
     (if no_numbers obj
      then Inr ((case found of None \<Rightarrow> [] | Some f \<Rightarrow> f) @
                concat (map (findall pattern) (string_leaves obj)))
      else Inl BeartypeCallHintParamViolation)"
  "find_in_values findall kvs pattern acc =
     (if no_numbers_in_values kvs
      then Inr (acc @ concat (map (findall pattern) (string_leaves_of_values kvs)))
      else Inl BeartypeCallHintParamViolation)"
  "find_in_items findall xs pattern acc =
     (if no_numbers_in_items xs
      then Inr (acc @ concat (map (findall pattern) (string_leaves_of_items xs)))
      else Inl BeartypeCallHintParamViolation)"
  by (induction findall obj pattern found and findall kvs pattern acc and findall xs pattern acc
      rule: find_matches_find_in_values_find_in_items.induct) simp_all

text \<open>
  Claim C5 says that \<open>find_matches\<close> skips numbers, booleans and \<open>None\<close> without an
  error, and returns \<^verbatim>\<open>["uploads/x.png"]\<close> on \<^verbatim>\<open>{"a": ["uploads/x.png", 5, null]}\<close>. On
  that value, which the parameter type admits as a \<^verbatim>\<open>dict[str, Any]\<close>, the call that
  \<open>find_matches\<close> makes to itself on the item \<open>5\<close> fails the check of the parameter
  type, and the exception leaves the outer calls: nothing is returned. The same
  happens on a list of numbers and booleans, which holds no string.
\<close>

theorem find_matches_raises_on_number:
  "find_matches re_findall (JDict [(''a'', JList [JStr ''uploads/x.png'', JInt 5, JNull])])
     FILE_UPLOAD_PATTERN None = Inl BeartypeCallHintParamViolation \<and>
   find_matches re_findall (JList [JInt 1, JBool True]) FILE_UPLOAD_PATTERN None =
     Inl BeartypeCallHintParamViolation"
  by (simp add: re_findall_def upload_char_def)

text \<open>
  What the code does on every value: on a nested combination of dictionaries, lists,
  strings and \<open>None\<close> it applies the pattern to the string leaves only and returns
  every match, leaf after leaf in the order of the walk; with a number or a boolean
  anywhere in the value the call raises.
\<close>

lemma find_matches_leaves:
  "(no_numbers obj \<longrightarrow>
      find_matches findall obj pattern None =
        Inr (concat (map (findall pattern) (string_leaves obj)))) \<and>
   (no_numbers obj \<and> string_leaves obj = [] \<longrightarrow>
      find_matches findall obj pattern None = Inr []) \<and>
   (\<not> no_numbers obj \<longrightarrow>
      find_matches findall obj pattern None = Inl BeartypeCallHintParamViolation)"
  by (simp add: find_matches_all(1))

lemma find_matches_examples:
  "no_numbers (JDict [(''a'', JList [JStr ''uploads/x.png'', JNull])]) \<and>
   find_matches re_findall (JDict [(''a'', JList [JStr ''uploads/x.png'', JNull])])
     FILE_UPLOAD_PATTERN None = Inr [''uploads/x.png''] \<and>
   no_numbers (JDict [(''a'', JList [JNull, JList []]), (''b'', JNull)]) \<and>
   string_leaves (JDict [(''a'', JList [JNull, JList []]), (''b'', JNull)]) = [] \<and>
   find_matches re_findall (JDict [(''a'', JList [JNull, JList []]), (''b'', JNull)])
     FILE_UPLOAD_PATTERN None = Inr [] \<and>
   \<not> no_numbers (JList [JBool True]) \<and>
   find_matches re_findall (JList [JBool True]) FILE_UPLOAD_PATTERN None =
     Inl BeartypeCallHintParamViolation"
  using
    find_matches_leaves [of "JDict [(''a'', JList [JStr ''uploads/x.png'', JNull])]" re_findall
      FILE_UPLOAD_PATTERN]
    find_matches_leaves [of "JDict [(''a'', JList [JNull, JList []]), (''b'', JNull)]" re_findall
      FILE_UPLOAD_PATTERN]
    find_matches_leaves [of "JList [JBool True]" re_findall FILE_UPLOAD_PATTERN]
  by (simp add: re_findall_def upload_char_def)

subsection \<open>The URL of a wiki attachment\<close>

text \<open>
  Claim C7. For a wiki object whose web URL is \<^verbatim>\<open>https://forge.example/org/proj\<close> and
  whose pages hold the one raw match \<^verbatim>\<open>uploads/-/abc/file.png\<close>, the resolved URL is
  \<^verbatim>\<open>https://forge.example/org/proj/-/wikis/-/wikis/uploads/abc/file.png\<close>.
\<close>

theorem wiki_attachment_url:
  assumes "web_url obj = ''https://forge.example/org/proj''"
    and "wikis_list obj = Ret pages"
    and "page_matches findall obj pattern pages [] = Inr [''uploads/-/abc/file.png'']"
  shows "get_wiki_attachment_urls findall obj pattern =
     Inr [''https://forge.example/org/proj/-/wikis/-/wikis/uploads/abc/file.png'']"
  using assms by (simp add: get_wiki_attachment_urls_def and_then_def py_replace_def)

lemma example_wiki_matches:
  "page_matches re_findall example_wiki FILE_UPLOAD_PATTERN [''home''] [] =
     Inr [''uploads/-/abc/file.png'']"
  by (simp add: example_wiki_def re_findall_def upload_char_def)

theorem wiki_attachment_url_witness:
  "web_url example_wiki = ''https://forge.example/org/proj'' \<and>
   wikis_list example_wiki = Ret [''home''] \<and>
   page_matches re_findall example_wiki FILE_UPLOAD_PATTERN [''home''] [] =
     Inr [''uploads/-/abc/file.png''] \<and>
   get_wiki_attachment_urls re_findall example_wiki FILE_UPLOAD_PATTERN =
     Inr [''https://forge.example/org/proj/-/wikis/-/wikis/uploads/abc/file.png'']"
proof -
  have u: "web_url example_wiki = ''https://forge.example/org/proj''"
    and l: "wikis_list example_wiki = Ret [''home'']"
    by (simp_all add: example_wiki_def)
  from wiki_attachment_url [OF u l example_wiki_matches] u l example_wiki_matches
  show ?thesis by simp
qed

section \<open>Properties of gitlab/api.py\<close>

subsection \<open>Errors of the forge during discovery\<close>

lemma search_groups_None: "search_groups api None = Some (Inr ([], []))"
  by (simp add: search_groups_def)

text \<open>
  Claim C6 says that an error of a list or get operation counts as zero results and
  discovery goes on. With the one requested project deleted, the handler of
  \<open>GitlabGetError\<close> logs and the next line reads the unbound variable \<open>project\<close>:
  discovery ends with \<open>UnboundLocalError\<close>. With the issues of a project refused,
  \<open>GitlabListError\<close> leaves \<open>get_gitlab_items\<close>, which has no handler around the call.
\<close>

theorem discovery_aborts:
  "get_gitlab_items deleted_project_forge None (Some [7]) False False False False =
     Some (Inl UnboundLocalError) \<and>
   get_gitlab_items issues_refused_forge None (Some [7]) False False True False =
     Some (Inl GitlabListError)"
  by (simp add: get_gitlab_items_def search_groups_None search_rest_def and_then_def
      deleted_project_forge_def issues_refused_forge_def dict_keys_def proj_def)

subsection \<open>Dictionaries\<close>

lemma keys_dict_update: "set (dict_keys (dict_update d k v)) = insert k (set (dict_keys d))"
  by (induction d k v rule: dict_update.induct) (auto simp: dict_keys_def)

lemma distinct_dict_update:
  "distinct (dict_keys d) \<Longrightarrow> distinct (dict_keys (dict_update d k v))"
proof (induction d k v rule: dict_update.induct)
  case (1 k v)
  show ?case by (simp add: dict_keys_def)
next
  case (2 k' v' d k v)
  have "set (map fst (dict_update d k v)) = insert k (set (map fst d))"
    using keys_dict_update [of d k v] by (simp add: dict_keys_def)
  with 2 show ?case by (auto simp: dict_keys_def)
qed

lemma keys_fold_update:
  "set (dict_keys (fold (\<lambda>project projects. dict_update projects (p_id project) project) ps d)) =
     set (dict_keys d) \<union> p_id ` set ps"
  by (induction ps arbitrary: d) (auto simp: keys_dict_update)

lemma distinct_fold_update:
  "distinct (dict_keys d) \<Longrightarrow>
   distinct (dict_keys (fold (\<lambda>project projects. dict_update projects (p_id project) project) ps d))"
  by (induction ps arbitrary: d) (auto simp: distinct_dict_update)

lemma one_entry:
  "distinct (dict_keys d) \<Longrightarrow> k \<in> set (dict_keys d) \<Longrightarrow>
   length (filter (\<lambda>kv. fst kv = k) d) = 1"
proof (induction d)
  case Nil
  then show ?case by (simp add: dict_keys_def)
next
  case (Cons a d)
  show ?case
  proof (cases "fst a = k")
    case True
    with Cons.prems have "k \<notin> fst ` set d" by (auto simp: dict_keys_def)
    then have "filter (\<lambda>kv. fst kv = k) d = []" by (auto simp: filter_empty_conv)
    with True show ?thesis by simp
  next
    case False
    with Cons show ?thesis by (auto simp: dict_keys_def)
  qed
qed

subsection \<open>The walk of the groups\<close>

lemma projects_under_unfold:
  assumes "subgroups_list api g = Ret subs" and "group_projects_list api g = Ret own"
  shows "projects_under api g =
     set own \<union> {p. \<exists>s \<in> set subs. \<exists>h. groups_get api s = Ret h \<and> p \<in> projects_under api h}"
proof (intro set_eqI iffI)
  fix p
  assume "p \<in> projects_under api g"
  then obtain k ps where r: "reachable api g k" and l: "group_projects_list api k = Ret ps"
    and p: "p \<in> set ps"
    by (auto simp: projects_under_def)
  from r show "p \<in> set own \<union>
      {p. \<exists>s \<in> set subs. \<exists>h. groups_get api s = Ret h \<and> p \<in> projects_under api h}"
  proof (cases rule: reachable.cases)
    case self
    with l p assms show ?thesis by simp
  next
    case (below subgroups s h)
    with l p assms show ?thesis by (auto simp: projects_under_def)
  qed
next
  fix p
  assume "p \<in> set own \<union>
      {p. \<exists>s \<in> set subs. \<exists>h. groups_get api s = Ret h \<and> p \<in> projects_under api h}"
  then show "p \<in> projects_under api g"
  proof
    assume "p \<in> set own"
    with assms show ?thesis
      by (auto simp: projects_under_def intro: reachable.self)
  next
    assume "p \<in> {p. \<exists>s \<in> set subs. \<exists>h. groups_get api s = Ret h \<and> p \<in> projects_under api h}"
    then obtain s h k ps where "s \<in> set subs" "groups_get api s = Ret h" "reachable api h k"
      "group_projects_list api k = Ret ps" "p \<in> set ps"
      by (auto simp: projects_under_def)
    with assms show ?thesis
      by (auto simp: projects_under_def intro: reachable.below)
  qed
qed

lemma for_each_collects:
  assumes "\<forall>s \<in> set subs. \<exists>h. groups_get api s = Ret h \<and> collects api h"
  shows "\<exists>gs' ps'.
     for_each subs
       (\<lambda>subgroup (groups, projects).
          case groups_get api subgroup of
            Raise e \<Rightarrow> Some (Inl e)
          | Ret subgroup \<Rightarrow> recurse_group api subgroup groups projects)
       (gs, ps) = Some (Inr (gs', ps')) \<and>
     set (dict_keys ps') =
       set (dict_keys ps) \<union>
       p_id ` {p. \<exists>s \<in> set subs. \<exists>h. groups_get api s = Ret h \<and> p \<in> projects_under api h} \<and>
     (distinct (dict_keys ps) \<longrightarrow> distinct (dict_keys ps'))"
  using assms
proof (induction subs arbitrary: gs ps)
  case Nil
  show ?case by simp
next
  case (Cons s subs)
  from Cons.prems obtain h where h: "groups_get api s = Ret h" and c: "collects api h"
    by auto
  from c obtain gs1 ps1 where
    r1: "recurse_group api h gs ps = Some (Inr (gs1, ps1))"
    and k1: "set (dict_keys ps1) = set (dict_keys ps) \<union> p_id ` projects_under api h"
    and d1: "distinct (dict_keys ps) \<longrightarrow> distinct (dict_keys ps1)"
    unfolding collects_def by blast
  from Cons.prems have "\<forall>s \<in> set subs. \<exists>h. groups_get api s = Ret h \<and> collects api h"
    by simp
  from Cons.IH [OF this, of gs1 ps1] obtain gs' ps' where
    r2: "for_each subs
       (\<lambda>subgroup (groups, projects).
          case groups_get api subgroup of
            Raise e \<Rightarrow> Some (Inl e)
          | Ret subgroup \<Rightarrow> recurse_group api subgroup groups projects)
       (gs1, ps1) = Some (Inr (gs', ps'))"
    and k2: "set (dict_keys ps') =
       set (dict_keys ps1) \<union>
       p_id ` {p. \<exists>s \<in> set subs. \<exists>h. groups_get api s = Ret h \<and> p \<in> projects_under api h}"
    and d2: "distinct (dict_keys ps1) \<longrightarrow> distinct (dict_keys ps')"
    by blast
  have "set (dict_keys ps') =
       set (dict_keys ps) \<union>
       p_id ` {p. \<exists>t \<in> set (s # subs). \<exists>h. groups_get api t = Ret h \<and> p \<in> projects_under api h}"
    unfolding k2 k1 using h by auto
  with r1 r2 d1 d2 h show ?case by simp
qed

lemma collects_step:
  assumes subs: "subgroups_list api g = Ret subs"
    and own: "group_projects_list api g = Ret own"
    and below: "\<forall>s \<in> set subs. \<exists>h. groups_get api s = Ret h \<and> collects api h"
  shows "collects api g"
  unfolding collects_def
proof (intro allI)
  fix gs ps
  from for_each_collects [OF below, of "dict_update gs (g_id g) g" ps] obtain gs1 ps1 where
    r: "for_each subs
       (\<lambda>subgroup (groups, projects).
          case groups_get api subgroup of
            Raise e \<Rightarrow> Some (Inl e)
          | Ret subgroup \<Rightarrow> recurse_group api subgroup groups projects)
       (dict_update gs (g_id g) g, ps) = Some (Inr (gs1, ps1))"
    and k: "set (dict_keys ps1) =
       set (dict_keys ps) \<union>
       p_id ` {p. \<exists>s \<in> set subs. \<exists>h. groups_get api s = Ret h \<and> p \<in> projects_under api h}"
    and d: "distinct (dict_keys ps) \<longrightarrow> distinct (dict_keys ps1)"
    by blast
  let ?ps' = "fold (\<lambda>project projects. dict_update projects (p_id project) project) own ps1"
  have res: "recurse_group api g gs ps = Some (Inr (gs1, ?ps'))"
    by (subst recurse_group.simps) (simp add: subs own r Let_def)
  have keys: "set (dict_keys ?ps') = set (dict_keys ps) \<union> p_id ` projects_under api g"
    unfolding keys_fold_update k projects_under_unfold [OF subs own] by auto
  have dist: "distinct (dict_keys ps) \<longrightarrow> distinct (dict_keys ?ps')"
    using d by (simp add: distinct_fold_update)
  from res keys dist
  show "\<exists>gs' ps'.
        recurse_group api g gs ps = Some (Inr (gs', ps')) \<and>
        set (dict_keys ps') = set (dict_keys ps) \<union> p_id ` projects_under api g \<and>
        (distinct (dict_keys ps) \<longrightarrow> distinct (dict_keys ps'))"
    by blast
qed

lemma levels_within_collects: "levels_within api n g \<Longrightarrow> collects api g"
proof (induction n arbitrary: g)
  case 0
  then obtain own where "subgroups_list api g = Ret []" "group_projects_list api g = Ret own"
    by (auto simp: returns_def split: res.splits)
  then show ?case by (rule collects_step) simp
next
  case (Suc n)
  then obtain subs own where subs: "subgroups_list api g = Ret subs"
    and own: "group_projects_list api g = Ret own"
    and all: "list_all
             (\<lambda>s. case groups_get api s of Raise e \<Rightarrow> False | Ret h \<Rightarrow> levels_within api n h)
             subs"
    by (auto simp: returns_def split: res.splits)
  have "\<forall>s \<in> set subs. \<exists>h. groups_get api s = Ret h \<and> collects api h"
  proof
    fix s assume "s \<in> set subs"
    with all have "case groups_get api s of Raise e \<Rightarrow> False | Ret h \<Rightarrow> levels_within api n h"
      by (simp add: list_all_iff)
    then obtain h where "groups_get api s = Ret h" "levels_within api n h"
      by (auto split: res.splits)
    with Suc.IH show "\<exists>h. groups_get api s = Ret h \<and> collects api h" by blast
  qed
  with subs own show ?case by (rule collects_step)
qed

lemma cyclic_forge_no_result:
  assumes "recurse_group api g gs ps = Some y"
  shows "api \<noteq> cyclic_forge"
  using assms
proof (induction api g gs ps y rule: recurse_group.raw_induct [rotated 1, consumes 1])
  case (1 walk api grp groups projects y)
  show ?case
  proof
    assume "api = cyclic_forge"
    with 1(2) obtain k s r where "walk cyclic_forge (grp_of k ''g'') (fst s) (snd s) = Some r"
      by (auto simp: cyclic_forge_def Let_def bind_eq_Some_conv split: if_splits)
    from 1(1) [OF this] show False by simp
  qed
qed

text \<open>
  Claim C4, counterexample. On the forge where group 1 lists group 2 and group 2
  lists group 1, the walk from group 1 calls itself on group 2, there on group 1, and
  so on: a group that is already in \<open>groups\<close> is visited again, and the call does
  not return.
\<close>

theorem walk_cycle_counterexample:
  "recurse_group cyclic_forge (grp_of 1 ''g'') [] [] = None"
proof (cases "recurse_group cyclic_forge (grp_of 1 ''g'') [] []")
  case None
  then show ?thesis .
next
  case (Some y)
  from cyclic_forge_no_result [OF Some] show ?thesis by simp
qed

text \<open>
  Claim C4, as amended. The walk keeps no record of the groups it has visited. On a
  hierarchy that ends below the start group (no chain of subgroups longer than \<open>n\<close>,
  every call of the forge answered), as every tree is, the walk returns, and the
  project dictionary it returns holds, next to the keys it was given, exactly the
  identifiers of the projects of every group at any depth below the start group, each
  once. On a group graph with a cycle nothing is claimed.
\<close>

theorem walk_collects_projects:
  assumes "levels_within api n grp"
  shows "\<exists>gs ps.
     recurse_group api grp groups projects = Some (Inr (gs, ps)) \<and>
     set (dict_keys ps) = set (dict_keys projects) \<union> p_id ` projects_under api grp \<and>
     (distinct (dict_keys projects) \<longrightarrow> distinct (dict_keys ps))"
  using levels_within_collects [OF assms] unfolding collects_def by blast

lemma tree_forge_simps:
  "groups_get tree_forge k = Ret (grp_of k ''g'')"
  "subgroups_list tree_forge (grp_of 1 n) = Ret [2, 3]"
  "subgroups_list tree_forge (grp_of 2 n) = Ret [4]"
  "subgroups_list tree_forge (grp_of 3 n) = Ret []"
  "subgroups_list tree_forge (grp_of 4 n) = Ret []"
  "group_projects_list tree_forge (grp_of 1 n) = Ret [listed 10 ''a'']"
  "group_projects_list tree_forge (grp_of 2 n) = Ret [listed 20 ''b'', listed 21 ''c'']"
  "group_projects_list tree_forge (grp_of 3 n) = Ret [listed 30 ''d'']"
  "group_projects_list tree_forge (grp_of 4 n) = Ret [listed 40 ''e'', listed 41 ''f'']"
  "projects_get tree_forge 20 = Ret (proj 20 ''b'')"
  by (simp_all add: tree_forge_def deleted_project_forge_def grp_of_def)

lemma id_simps: "g_id (grp_of k n) = k" "p_id (listed k n) = k" "p_id (proj k n) = k"
  by (simp_all add: grp_of_def listed_def proj_def)

lemma tree_group_4:
  "recurse_group tree_forge (grp_of 4 ''g'') gs ps =
     Some (Inr (dict_update gs 4 (grp_of 4 ''g''),
       dict_update (dict_update ps 40 (listed 40 ''e'')) 41 (listed 41 ''f'')))"
  by (subst recurse_group.simps) (simp add: tree_forge_simps id_simps)

lemma tree_group_3:
  "recurse_group tree_forge (grp_of 3 ''g'') gs ps =
     Some (Inr (dict_update gs 3 (grp_of 3 ''g''), dict_update ps 30 (listed 30 ''d'')))"
  by (subst recurse_group.simps) (simp add: tree_forge_simps id_simps)

lemma tree_group_2:
  "recurse_group tree_forge (grp_of 2 ''g'') gs ps =
     Some (Inr (dict_update (dict_update gs 2 (grp_of 2 ''g'')) 4 (grp_of 4 ''g''),
       dict_update
         (dict_update (dict_update (dict_update ps 40 (listed 40 ''e'')) 41 (listed 41 ''f''))
            20 (listed 20 ''b''))
         21 (listed 21 ''c'')))"
  by (subst recurse_group.simps) (simp add: tree_forge_simps id_simps tree_group_4)

lemma tree_group_1:
  "recurse_group tree_forge (grp_of 1 ''g'') [] [] =
     Some (Inr
       ([(1, grp_of 1 ''g''), (2, grp_of 2 ''g''), (4, grp_of 4 ''g''), (3, grp_of 3 ''g'')],
        [(40, listed 40 ''e''), (41, listed 41 ''f''), (20, listed 20 ''b''),
         (21, listed 21 ''c''), (30, listed 30 ''d''), (10, listed 10 ''a'')]))"
  by (subst recurse_group.simps) (simp add: tree_forge_simps id_simps tree_group_2 tree_group_3)

lemma tree_levels: "levels_within tree_forge (Suc (Suc 0)) (grp_of 1 ''g'')"
  by (simp add: tree_forge_simps returns_def)

theorem walk_collects_projects_witness:
  "levels_within tree_forge (Suc (Suc 0)) (grp_of 1 ''g'') \<and>
   (\<exists>gs ps. recurse_group tree_forge (grp_of 1 ''g'') [] [] = Some (Inr (gs, ps)) \<and>
      dict_keys ps = [40, 41, 20, 21, 30, 10] \<and> length ps = 6 \<and>
      p_id ` projects_under tree_forge (grp_of 1 ''g'') = {10, 20, 21, 30, 40, 41})"
proof -
  let ?ps = "[(40, listed 40 ''e''), (41, listed 41 ''f''), (20, listed 20 ''b''),
         (21, listed 21 ''c''), (30, listed 30 ''d''), (10, listed 10 ''a'')]"
  have k: "set (dict_keys ?ps) = p_id ` projects_under tree_forge (grp_of 1 ''g'')"
    using walk_collects_projects [OF tree_levels, of "[]" "[]"]
    by (simp add: tree_group_1 dict_keys_def)
  have keys: "dict_keys ?ps = [40, 41, 20, 21, 30, 10]"
    by (simp add: dict_keys_def)
  have "p_id ` projects_under tree_forge (grp_of 1 ''g'') = {10, 20, 21, 30, 40, 41}"
    using k unfolding keys by (auto simp: dict_keys_def)
  with keys tree_levels tree_group_1 show ?thesis by simp
qed

subsection \<open>One entry per project\<close>

lemma grows_refl: "grows d d"
  by (simp add: grows_def)

lemma grows_trans: "grows a b \<Longrightarrow> grows b c \<Longrightarrow> grows a c"
  by (auto simp: grows_def)

lemma grows_update: "grows d (dict_update d k v)"
  by (auto simp: grows_def keys_dict_update distinct_dict_update)

lemma grows_fold_update:
  "grows d (fold (\<lambda>project projects. dict_update projects (p_id project) project) ps d)"
  by (auto simp: grows_def keys_fold_update distinct_fold_update)

lemma for_each_grows:
  assumes "\<And>x s s'. x \<in> set xs \<Longrightarrow> body x s = Some (Inr s') \<Longrightarrow> grows (snd s) (snd s')"
    and "for_each xs body s = Some (Inr s')"
  shows "grows (snd s) (snd s')"
  using assms
proof (induction xs arbitrary: s)
  case Nil
  then show ?case by (simp add: grows_refl)
next
  case (Cons x xs)
  from Cons.prems(2) obtain r1 where b1: "body x s = Some r1"
    and c: "(case r1 of Inl e \<Rightarrow> Some (Inl e) | Inr s1 \<Rightarrow> for_each xs body s1) = Some (Inr s')"
    by (auto simp: bind_eq_Some_conv)
  from c obtain s1 where r1: "r1 = Inr s1" and r: "for_each xs body s1 = Some (Inr s')"
    by (cases r1) simp_all
  from b1 r1 have b: "body x s = Some (Inr s1)" by simp
  from Cons.prems(1) [OF _ b] have g1: "grows (snd s) (snd s1)" by simp
  have "grows (snd s1) (snd s')"
    by (rule Cons.IH [OF _ r]) (rule Cons.prems(1), simp_all)
  with g1 show ?case by (rule grows_trans)
qed

lemma walk_grows_sum:
  assumes "recurse_group api g gs ps = Some y"
  shows "case y of Inl e \<Rightarrow> True | Inr s' \<Rightarrow> grows ps (snd s')"
  using assms
proof (induction api g gs ps y rule: recurse_group.raw_induct [rotated 1, consumes 1])
  case (1 walk api grp groups projects y)
  show ?case
  proof (cases y)
    case (Inl e)
    then show ?thesis by simp
  next
    case (Inr s')
    from 1(2) Inr obtain subs where subs: "subgroups_list api grp = Ret subs"
      by (cases "subgroups_list api grp") (simp_all add: Let_def)
    with 1(2) obtain r1 where
      loop1: "for_each subs
         (\<lambda>subgroup (groups, projects).
            case groups_get api subgroup of
              Raise e \<Rightarrow> Some (Inl e)
            | Ret subgroup \<Rightarrow> walk api subgroup groups projects)
         (dict_update groups (g_id grp) grp, projects) = Some r1"
      and k: "(case r1 of
                 Inl e \<Rightarrow> Some (Inl e)
               | Inr (groups, projects) \<Rightarrow>
                   (case group_projects_list api grp of
                      Raise e \<Rightarrow> Some (Inl e)
                    | Ret group_projects \<Rightarrow>
                        Some (Inr (groups,
                          fold (\<lambda>project projects. dict_update projects (p_id project) project)
                            group_projects projects)))) = Some y"
      by (auto simp: Let_def bind_eq_Some_conv)
    from k Inr obtain s1 where r1: "r1 = Inr s1"
      by (cases r1) simp_all
    from k Inr r1 obtain own where own: "group_projects_list api grp = Ret own"
      by (cases "group_projects_list api grp") (simp_all split: prod.splits)
    from k Inr r1 own have
      s': "snd s' = fold (\<lambda>project projects. dict_update projects (p_id project) project)
                   own (snd s1)"
      by (auto split: prod.splits)
    from loop1 r1 have
      loop: "for_each subs
         (\<lambda>subgroup (groups, projects).
            case groups_get api subgroup of
              Raise e \<Rightarrow> Some (Inl e)
            | Ret subgroup \<Rightarrow> walk api subgroup groups projects)
         (dict_update groups (g_id grp) grp, projects) = Some (Inr s1)"
      by simp
    have "grows (snd (dict_update groups (g_id grp) grp, projects)) (snd s1)"
    proof (rule for_each_grows [OF _ loop])
      fix x s t
      assume "(case s of (groups, projects) \<Rightarrow>
                 (case groups_get api x of
                    Raise e \<Rightarrow> Some (Inl e)
                  | Ret subgroup \<Rightarrow> walk api subgroup groups projects)) = Some (Inr t)"
      then obtain h where "walk api h (fst s) (snd s) = Some (Inr t)"
        by (auto split: prod.splits res.splits)
      from 1(1) [OF this] show "grows (snd s) (snd t)" by simp
    qed
    then have "grows projects (snd s1)" by simp
    moreover have "grows (snd s1) (snd s')" unfolding s' by (rule grows_fold_update)
    ultimately show ?thesis unfolding Inr by (simp add: grows_trans)
  qed
qed

lemma walk_grows: "recurse_group api g gs ps = Some (Inr (gs', ps')) \<Longrightarrow> grows ps ps'"
  using walk_grows_sum [of api g gs ps "Inr (gs', ps')"] by simp

lemma search_groups_distinct:
  assumes "search_groups api gids = Some (Inr (gs, ps))"
  shows "distinct (dict_keys ps)"
proof (cases gids)
  case None
  with assms show ?thesis by (simp add: search_groups_def dict_keys_def)
next
  case (Some ids)
  with assms have loop: "for_each ids
            (\<lambda>gid (a, b).
               case groups_get api gid of
                 Raise e \<Rightarrow> Some (Inl e)
               | Ret grp \<Rightarrow> recurse_group api grp a b)
            ([], []) = Some (Inr (gs, ps))"
    by (simp add: search_groups_def)
  have "grows (snd ([] :: (int, group) dict, [] :: (int, project) dict)) (snd (gs, ps))"
  proof (rule for_each_grows [OF _ loop])
    fix x s t
    assume "(case s of (a, b) \<Rightarrow>
               (case groups_get api x of
                  Raise e \<Rightarrow> Some (Inl e)
                | Ret grp \<Rightarrow> recurse_group api grp a b)) =
            Some (Inr t)"
    then obtain h where "recurse_group api h (fst s) (snd s) = Some (Inr (fst t, snd t))"
      by (auto split: prod.splits res.splits)
    then show "grows (snd s) (snd t)" by (rule walk_grows)
  qed
  then show ?thesis by (simp add: grows_def dict_keys_def)
qed

lemma search_projects_grows:
  "search_projects api pids var ps = Inr ps' \<Longrightarrow> grows ps ps'"
proof (induction api pids var ps rule: search_projects.induct)
  case (1 api var ps)
  then show ?case by (simp add: grows_refl)
next
  case (2 api pid pids var ps)
  have step: "\<And>p. grows ps (dict_update (dict_update ps (p_id p) p) (p_id p) p)"
    by (rule grows_trans [OF grows_update grows_update])
  from 2 show ?case
    by (auto split: res.splits if_splits option.splits intro: grows_trans [OF step])
qed

lemma search_personal_projects_grows:
  "search_personal_projects api ps = Inr ps' \<Longrightarrow> grows ps ps'"
  by (auto simp: search_personal_projects_def grows_fold_update split: res.splits)

lemma search_rest_grows:
  assumes "search_rest api pids personal wikis issues snippets gs ps = Inr it"
  shows "grows ps (gitlab_projects it)"
proof -
  from assms obtain ps1 ps2 where
    a: "(case pids of None \<Rightarrow> Inr ps | Some ids \<Rightarrow> search_projects api ids None ps) = Inr ps1"
    and b: "(if personal then search_personal_projects api ps1 else Inr ps1) = Inr ps2"
    and c: "gitlab_projects it = ps2"
    by (auto simp: search_rest_def and_then_def split: sum.splits)
  from a have "grows ps ps1"
    by (auto split: option.splits intro: grows_refl search_projects_grows)
  moreover from b have "grows ps1 ps2"
    by (auto split: if_splits intro: grows_refl search_personal_projects_grows)
  ultimately show ?thesis unfolding c by (rule grows_trans)
qed

text \<open>
  Claim C9. In the project dictionary that discovery returns every project
  identifier has exactly one entry; in particular a project found by the walk of a
  requested group that is also requested by its identifier has exactly one entry.
\<close>

theorem discovery_deduplicates:
  assumes "get_gitlab_items api gids pids personal wikis issues snippets = Some (Inr it)"
  shows "distinct (dict_keys (gitlab_projects it)) \<and>
     (\<forall>pid \<in> set (dict_keys (gitlab_projects it)).
        length (filter (\<lambda>kv. fst kv = pid) (gitlab_projects it)) = 1) \<and>
     (\<exists>gs ps. search_groups api gids = Some (Inr (gs, ps)) \<and>
        (\<forall>pid \<in> set (dict_keys ps).
           (\<exists>ids. pids = Some ids \<and> pid \<in> set ids) \<longrightarrow>
           length (filter (\<lambda>kv. fst kv = pid) (gitlab_projects it)) = 1))"
proof -
  from assms obtain r0 where g0: "search_groups api gids = Some r0"
    and r0: "(case r0 of
                Inl e \<Rightarrow> Inl e
              | Inr (gs, ps) \<Rightarrow> search_rest api pids personal wikis issues snippets gs ps) =
             Inr it"
    by (auto simp: get_gitlab_items_def bind_eq_Some_conv)
  from r0 obtain gs ps where p: "r0 = Inr (gs, ps)"
    and r: "search_rest api pids personal wikis issues snippets gs ps = Inr it"
    by (cases r0) (auto split: prod.splits)
  from g0 p have g: "search_groups api gids = Some (Inr (gs, ps))" by simp
  from search_rest_grows [OF r] search_groups_distinct [OF g]
  have d: "distinct (dict_keys (gitlab_projects it))"
    and sub: "set (dict_keys ps) \<subseteq> set (dict_keys (gitlab_projects it))"
    by (auto simp: grows_def)
  from d have one: "\<forall>pid \<in> set (dict_keys (gitlab_projects it)).
        length (filter (\<lambda>kv. fst kv = pid) (gitlab_projects it)) = 1"
    by (intro ballI one_entry)
  with sub have "\<forall>pid \<in> set (dict_keys ps).
           (\<exists>ids. pids = Some ids \<and> pid \<in> set ids) \<longrightarrow>
           length (filter (\<lambda>kv. fst kv = pid) (gitlab_projects it)) = 1"
    by blast
  with d one g show ?thesis by blast
qed

lemma tree_search_groups:
  "search_groups tree_forge (Some [1]) =
     Some (Inr
       ([(1, grp_of 1 ''g''), (2, grp_of 2 ''g''), (4, grp_of 4 ''g''), (3, grp_of 3 ''g'')],
        [(40, listed 40 ''e''), (41, listed 41 ''f''), (20, listed 20 ''b''),
         (21, listed 21 ''c''), (30, listed 30 ''d''), (10, listed 10 ''a'')]))"
  by (simp add: search_groups_def tree_forge_simps tree_group_1)

lemma tree_discovery:
  "get_gitlab_items tree_forge (Some [1]) (Some [20]) False False False False =
     Some (Inr
       \<lparr>gitlab_groups =
          [(1, grp_of 1 ''g''), (2, grp_of 2 ''g''), (4, grp_of 4 ''g''), (3, grp_of 3 ''g'')],
        gitlab_projects =
          [(40, listed 40 ''e''), (41, listed 41 ''f''), (20, proj 20 ''b''),
           (21, listed 21 ''c''), (30, listed 30 ''d''), (10, listed 10 ''a'')],
        gitlab_wikis = [], gitlab_issues = [], gitlab_snippets = []\<rparr>)"
  by (simp add: get_gitlab_items_def tree_search_groups search_rest_def and_then_def
      tree_forge_simps id_simps)

theorem discovery_deduplicates_witness:
  "\<exists>it. get_gitlab_items tree_forge (Some [1]) (Some [20]) False False False False =
       Some (Inr it) \<and>
     dict_keys (gitlab_projects it) = [40, 41, 20, 21, 30, 10] \<and>
     distinct (dict_keys (gitlab_projects it)) \<and>
     length (filter (\<lambda>kv. fst kv = 20) (gitlab_projects it)) = 1"
proof -
  let ?it = "\<lparr>gitlab_groups =
          [(1, grp_of 1 ''g''), (2, grp_of 2 ''g''), (4, grp_of 4 ''g''), (3, grp_of 3 ''g'')],
        gitlab_projects =
          [(40, listed 40 ''e''), (41, listed 41 ''f''), (20, proj 20 ''b''),
           (21, listed 21 ''c''), (30, listed 30 ''d''), (10, listed 10 ''a'')],
        gitlab_wikis = [], gitlab_issues = [], gitlab_snippets = []\<rparr>"
  have keys: "dict_keys (gitlab_projects ?it) = [40, 41, 20, 21, 30, 10]"
    by (simp add: dict_keys_def)
  from discovery_deduplicates [OF tree_discovery]
  have d: "distinct (dict_keys (gitlab_projects ?it))"
    and one: "\<forall>pid \<in> set (dict_keys (gitlab_projects ?it)).
        length (filter (\<lambda>kv. fst kv = pid) (gitlab_projects ?it)) = 1"
    by blast+
  have "(20 :: int) \<in> set (dict_keys (gitlab_projects ?it))"
    unfolding keys by simp
  with one have "length (filter (\<lambda>kv. fst kv = 20) (gitlab_projects ?it)) = 1"
    by blast
  with tree_discovery keys d show ?thesis by blast
qed

section \<open>Properties of gitlab/backups.py and entrypoints.py\<close>












end
